theory Spec2Isabelle
  imports Main "HOL-Library.Word" "HOL-Library.Signed_Division"
begin

unbundle bit_operations_syntax

section \<open>Machine types and the constants of the missing header\<close>

text \<open>
  The library is one C file, \<^verbatim>\<open>modbus.c\<close>. Bytes (\<^verbatim>\<open>uint8_t\<close>) are 8-bit words,
  \<^verbatim>\<open>uint16_t\<close> values are 16-bit words, C \<^verbatim>\<open>int\<close> values are integers (no
  computation below leaves the 32-bit range) and sizes, offsets and indices are natural
  numbers. A C buffer is a list; \<^verbatim>\<open>buf[i] = v\<close> is \<open>buf[i := v]\<close> and every model
  function that writes a buffer returns the updated buffer.
\<close>

type_synonym u8 = "8 word"
type_synonym u16 = "16 word"

text \<open>
  Modelled from the spec: the function-code macros are declared in \<^verbatim>\<open>modbus.h\<close>, which
  is not part of the sources. Their values are the function codes of the table of
  section 4.3 of the specification; \<^verbatim>\<open>FC_REPORT_SLAVE_ID\<close> is the Modbus code 0x11.
\<close>

definition FC_READ_COIL_STATUS :: u8 where "FC_READ_COIL_STATUS = 0x01"
definition FC_READ_INPUT_STATUS :: u8 where "FC_READ_INPUT_STATUS = 0x02"
definition FC_READ_HOLDING_REGISTERS :: u8 where "FC_READ_HOLDING_REGISTERS = 0x03"
definition FC_READ_INPUT_REGISTERS :: u8 where "FC_READ_INPUT_REGISTERS = 0x04"
definition FC_FORCE_SINGLE_COIL :: u8 where "FC_FORCE_SINGLE_COIL = 0x05"
definition FC_PRESET_SINGLE_REGISTER :: u8 where "FC_PRESET_SINGLE_REGISTER = 0x06"
definition FC_READ_EXCEPTION_STATUS :: u8 where "FC_READ_EXCEPTION_STATUS = 0x07"
definition FC_FORCE_MULTIPLE_COILS :: u8 where "FC_FORCE_MULTIPLE_COILS = 0x0F"
definition FC_PRESET_MULTIPLE_REGISTERS :: u8 where "FC_PRESET_MULTIPLE_REGISTERS = 0x10"
definition FC_REPORT_SLAVE_ID :: u8 where "FC_REPORT_SLAVE_ID = 0x11"

lemmas FC_defs =
  FC_READ_COIL_STATUS_def FC_READ_INPUT_STATUS_def FC_READ_HOLDING_REGISTERS_def
  FC_READ_INPUT_REGISTERS_def FC_FORCE_SINGLE_COIL_def FC_PRESET_SINGLE_REGISTER_def
  FC_READ_EXCEPTION_STATUS_def FC_FORCE_MULTIPLE_COILS_def
  FC_PRESET_MULTIPLE_REGISTERS_def FC_REPORT_SLAVE_ID_def

text \<open>
  Modelled from the spec: the size macros of \<^verbatim>\<open>modbus.h\<close>. Section 6 of the
  specification gives \<^verbatim>\<open>MAX_PACKET_SIZE\<close> and the header and checksum lengths; section
  4.2 gives the sizes of the request headers (six bytes in RTU, twelve in TCP), and
  \<^verbatim>\<open>MIN_QUERY_SIZE\<close> is the size of a buffer that holds either with its trailer.
\<close>

definition MAX_PACKET_SIZE :: nat where "MAX_PACKET_SIZE = 260"
definition MIN_QUERY_SIZE :: nat where "MIN_QUERY_SIZE = 12"
definition HEADER_LENGTH_RTU :: nat where "HEADER_LENGTH_RTU = 0"
definition HEADER_LENGTH_TCP :: nat where "HEADER_LENGTH_TCP = 6"
definition CHECKSUM_SIZE_RTU :: nat where "CHECKSUM_SIZE_RTU = 2"
definition CHECKSUM_SIZE_TCP :: nat where "CHECKSUM_SIZE_TCP = 0"
definition PRESET_QUERY_SIZE_RTU :: nat where "PRESET_QUERY_SIZE_RTU = 6"
definition PRESET_QUERY_SIZE_TCP :: nat where "PRESET_QUERY_SIZE_TCP = 12"

text \<open>
  Modelled from the spec: the quantity caps of \<^verbatim>\<open>modbus.h\<close>, with the values of
  section 4.5 of the specification.
\<close>

definition MAX_READ_HOLD_REGS :: int where "MAX_READ_HOLD_REGS = 125"
definition MAX_READ_INPUT_REGS :: int where "MAX_READ_INPUT_REGS = 125"
definition MAX_WRITE_REGS :: int where "MAX_WRITE_REGS = 123"
definition MAX_WRITE_COILS :: int where "MAX_WRITE_COILS = 1968"

text \<open>
  The library's error codes are macros of the missing header too. The specification says
  only that they are distinct negative integers, different from every negated
  exception code, so they stay symbolic: a C \<^verbatim>\<open>int\<close> result is a value of
  \<open>error + int\<close>, with \<open>Inl\<close> for one of the named codes.
\<close>

datatype error =
    INVALID_CRC | COMM_TIME_OUT | PORT_SOCKET_FAILURE | SELECT_FAILURE
  | CONNECTION_CLOSED | TOO_MANY_DATAS | INVALID_EXCEPTION_CODE

type_synonym ret = "error + int"

text \<open>The C test \<^verbatim>\<open>ret > 0\<close>: every error code is negative.\<close>

definition positive :: "ret \<Rightarrow> bool" where
  "positive r = (case r of Inl e \<Rightarrow> False | Inr n \<Rightarrow> 0 < n)"

datatype type_com = RTU | TCP

text \<open>
  The fields of \<^verbatim>\<open>modbus_param_t\<close> that the protocol code computes with. The
  descriptor, the serial settings, the debug flag and the error-handling mode only reach
  the operating system and the log: \<^verbatim>\<open>error_treat\<close> prints, then flushes the serial
  queues or reconnects the socket, and no value computed below depends on it.
\<close>

record modbus_param =
  type_com :: type_com
  header_length :: nat
  checksum_size :: nat

text \<open>\<^verbatim>\<open>modbus_init_rtu\<close> and \<^verbatim>\<open>modbus_init_tcp\<close>, on those fields.\<close>

definition modbus_init_rtu :: modbus_param where
  "modbus_init_rtu =
     \<lparr>type_com = RTU, header_length = HEADER_LENGTH_RTU,
      checksum_size = CHECKSUM_SIZE_RTU\<rparr>"

definition modbus_init_tcp :: modbus_param where
  "modbus_init_tcp =
     \<lparr>type_com = TCP, header_length = HEADER_LENGTH_TCP,
      checksum_size = CHECKSUM_SIZE_TCP\<rparr>"

section \<open>CRC-16\<close>

definition table_crc_hi :: "u8 list" where
  "table_crc_hi =
    [
     0x00, 0xC1, 0x81, 0x40, 0x01, 0xC0, 0x80, 0x41, 0x01, 0xC0,
     0x80, 0x41, 0x00, 0xC1, 0x81, 0x40, 0x01, 0xC0, 0x80, 0x41,
     0x00, 0xC1, 0x81, 0x40, 0x00, 0xC1, 0x81, 0x40, 0x01, 0xC0,
     0x80, 0x41, 0x01, 0xC0, 0x80, 0x41, 0x00, 0xC1, 0x81, 0x40,
     0x00, 0xC1, 0x81, 0x40, 0x01, 0xC0, 0x80, 0x41, 0x00, 0xC1,
     0x81, 0x40, 0x01, 0xC0, 0x80, 0x41, 0x01, 0xC0, 0x80, 0x41,
     0x00, 0xC1, 0x81, 0x40, 0x01, 0xC0, 0x80, 0x41, 0x00, 0xC1,
     0x81, 0x40, 0x00, 0xC1, 0x81, 0x40, 0x01, 0xC0, 0x80, 0x41,
     0x00, 0xC1, 0x81, 0x40, 0x01, 0xC0, 0x80, 0x41, 0x01, 0xC0,
     0x80, 0x41, 0x00, 0xC1, 0x81, 0x40, 0x00, 0xC1, 0x81, 0x40,
     0x01, 0xC0, 0x80, 0x41, 0x01, 0xC0, 0x80, 0x41, 0x00, 0xC1,
     0x81, 0x40, 0x01, 0xC0, 0x80, 0x41, 0x00, 0xC1, 0x81, 0x40,
     0x00, 0xC1, 0x81, 0x40, 0x01, 0xC0, 0x80, 0x41, 0x01, 0xC0,
     0x80, 0x41, 0x00, 0xC1, 0x81, 0x40, 0x00, 0xC1, 0x81, 0x40,
     0x01, 0xC0, 0x80, 0x41, 0x00, 0xC1, 0x81, 0x40, 0x01, 0xC0,
     0x80, 0x41, 0x01, 0xC0, 0x80, 0x41, 0x00, 0xC1, 0x81, 0x40,
     0x00, 0xC1, 0x81, 0x40, 0x01, 0xC0, 0x80, 0x41, 0x01, 0xC0,
     0x80, 0x41, 0x00, 0xC1, 0x81, 0x40, 0x01, 0xC0, 0x80, 0x41,
     0x00, 0xC1, 0x81, 0x40, 0x00, 0xC1, 0x81, 0x40, 0x01, 0xC0,
     0x80, 0x41, 0x00, 0xC1, 0x81, 0x40, 0x01, 0xC0, 0x80, 0x41,
     0x01, 0xC0, 0x80, 0x41, 0x00, 0xC1, 0x81, 0x40, 0x01, 0xC0,
     0x80, 0x41, 0x00, 0xC1, 0x81, 0x40, 0x00, 0xC1, 0x81, 0x40,
     0x01, 0xC0, 0x80, 0x41, 0x01, 0xC0, 0x80, 0x41, 0x00, 0xC1,
     0x81, 0x40, 0x00, 0xC1, 0x81, 0x40, 0x01, 0xC0, 0x80, 0x41,
     0x00, 0xC1, 0x81, 0x40, 0x01, 0xC0, 0x80, 0x41, 0x01, 0xC0,
     0x80, 0x41, 0x00, 0xC1, 0x81, 0x40
    ]"

definition table_crc_lo :: "u8 list" where
  "table_crc_lo =
    [
     0x00, 0xC0, 0xC1, 0x01, 0xC3, 0x03, 0x02, 0xC2, 0xC6, 0x06,
     0x07, 0xC7, 0x05, 0xC5, 0xC4, 0x04, 0xCC, 0x0C, 0x0D, 0xCD,
     0x0F, 0xCF, 0xCE, 0x0E, 0x0A, 0xCA, 0xCB, 0x0B, 0xC9, 0x09,
     0x08, 0xC8, 0xD8, 0x18, 0x19, 0xD9, 0x1B, 0xDB, 0xDA, 0x1A,
     0x1E, 0xDE, 0xDF, 0x1F, 0xDD, 0x1D, 0x1C, 0xDC, 0x14, 0xD4,
     0xD5, 0x15, 0xD7, 0x17, 0x16, 0xD6, 0xD2, 0x12, 0x13, 0xD3,
     0x11, 0xD1, 0xD0, 0x10, 0xF0, 0x30, 0x31, 0xF1, 0x33, 0xF3,
     0xF2, 0x32, 0x36, 0xF6, 0xF7, 0x37, 0xF5, 0x35, 0x34, 0xF4,
     0x3C, 0xFC, 0xFD, 0x3D, 0xFF, 0x3F, 0x3E, 0xFE, 0xFA, 0x3A,
     0x3B, 0xFB, 0x39, 0xF9, 0xF8, 0x38, 0x28, 0xE8, 0xE9, 0x29,
     0xEB, 0x2B, 0x2A, 0xEA, 0xEE, 0x2E, 0x2F, 0xEF, 0x2D, 0xED,
     0xEC, 0x2C, 0xE4, 0x24, 0x25, 0xE5, 0x27, 0xE7, 0xE6, 0x26,
     0x22, 0xE2, 0xE3, 0x23, 0xE1, 0x21, 0x20, 0xE0, 0xA0, 0x60,
     0x61, 0xA1, 0x63, 0xA3, 0xA2, 0x62, 0x66, 0xA6, 0xA7, 0x67,
     0xA5, 0x65, 0x64, 0xA4, 0x6C, 0xAC, 0xAD, 0x6D, 0xAF, 0x6F,
     0x6E, 0xAE, 0xAA, 0x6A, 0x6B, 0xAB, 0x69, 0xA9, 0xA8, 0x68,
     0x78, 0xB8, 0xB9, 0x79, 0xBB, 0x7B, 0x7A, 0xBA, 0xBE, 0x7E,
     0x7F, 0xBF, 0x7D, 0xBD, 0xBC, 0x7C, 0xB4, 0x74, 0x75, 0xB5,
     0x77, 0xB7, 0xB6, 0x76, 0x72, 0xB2, 0xB3, 0x73, 0xB1, 0x71,
     0x70, 0xB0, 0x50, 0x90, 0x91, 0x51, 0x93, 0x53, 0x52, 0x92,
     0x96, 0x56, 0x57, 0x97, 0x55, 0x95, 0x94, 0x54, 0x9C, 0x5C,
     0x5D, 0x9D, 0x5F, 0x9F, 0x9E, 0x5E, 0x5A, 0x9A, 0x9B, 0x5B,
     0x99, 0x59, 0x58, 0x98, 0x88, 0x48, 0x49, 0x89, 0x4B, 0x8B,
     0x8A, 0x4A, 0x4E, 0x8E, 0x8F, 0x4F, 0x8D, 0x4D, 0x4C, 0x8C,
     0x44, 0x84, 0x85, 0x45, 0x87, 0x47, 0x46, 0x86, 0x82, 0x42,
     0x43, 0x83, 0x41, 0x81, 0x80, 0x40
    ]"

text \<open>One turn of the \<^verbatim>\<open>while\<close> loop of \<^verbatim>\<open>crc16\<close>, on the pair \<open>(crc_hi, crc_lo)\<close>.\<close>

definition crc16_step :: "u8 \<times> u8 \<Rightarrow> u8 \<Rightarrow> u8 \<times> u8" where
  "crc16_step c b =
     (let i = unat (fst c XOR b)
      in (snd c XOR table_crc_hi ! i, table_crc_lo ! i))"

text \<open>
  \<^verbatim>\<open>crc16(buffer, buffer_length)\<close>: the length is a \<^verbatim>\<open>uint16_t\<close>, the loop reads the
  first \<open>buffer_length\<close> bytes, and the result is \<^verbatim>\<open>crc_hi << 8 | crc_lo\<close>.
\<close>

definition crc16 :: "u8 list \<Rightarrow> u16 \<Rightarrow> u16" where
  "crc16 buffer buffer_length =
     (let c = foldl crc16_step (0xFF, 0xFF) (take (unat buffer_length) buffer)
      in push_bit 8 (ucast (fst c)) OR ucast (snd c))"

text \<open>
  \<^verbatim>\<open>check_crc16\<close>: in RTU the CRC of the first \<open>msg_size - 2\<close> bytes is compared with
  \<^verbatim>\<open>(msg[msg_size - 2] << 8) | msg[msg_size - 1]\<close>; in TCP there is nothing to check.
  Every caller passes a size of at least 2.
\<close>

definition check_crc16 :: "modbus_param \<Rightarrow> u8 list \<Rightarrow> nat \<Rightarrow> ret" where
  "check_crc16 mb_param msg msg_size =
     (if type_com mb_param = RTU then
        (let crc_calc = crc16 msg (of_nat (msg_size - 2));
             crc_received =
               (push_bit 8 (ucast (msg ! (msg_size - 2))) OR ucast (msg ! (msg_size - 1)) :: u16)
         in if crc_calc = crc_received then Inr 0 else Inl INVALID_CRC)
      else Inr 0)"

section \<open>Expected size of a response\<close>

text \<open>The 16-bit field that C reads as \<^verbatim>\<open>(p[i] << 8) | p[i + 1]\<close>, an \<^verbatim>\<open>int\<close>.\<close>

definition field16 :: "u8 list \<Rightarrow> nat \<Rightarrow> nat" where
  "field16 p i = push_bit 8 (unat (p ! i)) OR unat (p ! (i + 1))"

definition compute_response_size :: "modbus_param \<Rightarrow> u8 list \<Rightarrow> nat" where
  "compute_response_size mb_param query =
     (let offset = header_length mb_param;
          fc = query ! (offset + 1);
          response_size_computed =
            (if fc = FC_READ_COIL_STATUS \<or> fc = FC_READ_INPUT_STATUS then
               (let coil_count = field16 query (offset + 4)
                in 3 + coil_count div 8 + (if coil_count mod 8 = 0 then 0 else 1))
             else if fc = FC_READ_HOLDING_REGISTERS \<or> fc = FC_READ_INPUT_REGISTERS then
               3 + 2 * field16 query (offset + 4)
             else if fc = FC_READ_EXCEPTION_STATUS then 4
             else 6)
      in response_size_computed + offset + checksum_size mb_param)"

section \<open>Building a request\<close>

definition build_query_packet_rtu :: "u8 \<Rightarrow> u8 \<Rightarrow> u16 \<Rightarrow> u16 \<Rightarrow> u8 list \<Rightarrow> u8 list \<times> nat" where
  "build_query_packet_rtu slave function start_addr count packet =
     (packet[0 := slave,
             1 := function,
             2 := ucast (drop_bit 8 start_addr),
             3 := ucast (start_addr AND 0x00ff),
             4 := ucast (drop_bit 8 count),
             5 := ucast (count AND 0x00ff)],
      PRESET_QUERY_SIZE_RTU)"

text \<open>
  The transaction identifier is the \<^verbatim>\<open>static uint16_t t_id\<close> of
  \<^verbatim>\<open>build_query_packet_tcp\<close>, zero when the program starts. The model passes it in and
  returns it updated. \<^verbatim>\<open>UINT16_MAX\<close> is 0xFFFF.
\<close>

definition next_t_id :: "u16 \<Rightarrow> u16" where
  "next_t_id t_id = (if t_id < 0xFFFF then t_id + 1 else 0)"

definition build_query_packet_tcp ::
  "u8 \<Rightarrow> u8 \<Rightarrow> u16 \<Rightarrow> u16 \<Rightarrow> u8 list \<Rightarrow> u16 \<Rightarrow> u8 list \<times> nat \<times> u16" where
  "build_query_packet_tcp slave function start_addr count packet t_id0 =
     (let t_id = next_t_id t_id0
      in (packet[0 := ucast (drop_bit 8 t_id),
                 1 := ucast (t_id AND 0x00ff),
                 2 := 0,
                 3 := 0,
                 6 := slave,
                 7 := function,
                 8 := ucast (drop_bit 8 start_addr),
                 9 := ucast (start_addr AND 0x00ff),
                 10 := ucast (drop_bit 8 count),
                 11 := ucast (count AND 0x00ff)],
          PRESET_QUERY_SIZE_TCP, t_id))"

definition build_query_packet ::
  "modbus_param \<Rightarrow> u8 \<Rightarrow> u8 \<Rightarrow> u16 \<Rightarrow> u16 \<Rightarrow> u8 list \<Rightarrow> u16 \<Rightarrow> u8 list \<times> nat \<times> u16" where
  "build_query_packet mb_param slave function start_addr count packet t_id =
     (if type_com mb_param = RTU then
        (case build_query_packet_rtu slave function start_addr count packet of
           (packet1, n) \<Rightarrow> (packet1, n, t_id))
      else build_query_packet_tcp slave function start_addr count packet t_id)"

text \<open>\<^verbatim>\<open>set_packet_length_tcp\<close>: \<^verbatim>\<open>packet_size - 6\<close>, cut to a \<^verbatim>\<open>uint16_t\<close>.\<close>

definition set_packet_length_tcp :: "u8 list \<Rightarrow> nat \<Rightarrow> u8 list" where
  "set_packet_length_tcp packet packet_size =
     (let mbap_length = (word_of_int (int packet_size - 6) :: u16)
      in packet[4 := ucast (drop_bit 8 mbap_length),
                5 := ucast (mbap_length AND 0x00FF)])"

section \<open>The transport\<close>

text \<open>
  What the descriptor delivers is a list of events, in order of arrival: a chunk of
  bytes that becomes readable before the running timeout ends (an empty chunk is the end
  of the stream: \<^verbatim>\<open>read\<close> returns 0), a silence longer than the timeout, a signal
  that interrupts \<^verbatim>\<open>select\<close>, a failure of \<^verbatim>\<open>select\<close>, and a failure of \<^verbatim>\<open>read\<close>
  on a readable descriptor. After the last event the line stays silent.
\<close>

datatype event = Data "u8 list" | Silence | Eintr | Select_error | Read_error

text \<open>
  \<open>rx\<close> is what is still to arrive, \<open>tx\<close> the frames handed to \<^verbatim>\<open>write\<close> or
  \<^verbatim>\<open>send\<close> so far, and \<open>wr n\<close> the value such a call returns for a frame of \<open>n\<close>
  bytes. \<open>junk_int\<close> and \<open>junk_byte\<close> are what uninitialised automatic storage
  holds.
\<close>

record io =
  rx :: "event list"
  tx :: "u8 list list"
  wr :: "nat \<Rightarrow> int"
  junk_int :: int
  junk_byte :: u8

text \<open>
  \<^verbatim>\<open>modbus_send\<close>: in RTU the CRC is stored behind the frame, \<^verbatim>\<open>s_crc >> 8\<close> first;
  in TCP the length field is set. The result is the count written, or
  \<^verbatim>\<open>PORT_SOCKET_FAILURE\<close>; the buffer comes back too, since the callers read it again.
\<close>

definition modbus_send :: "modbus_param \<Rightarrow> u8 list \<Rightarrow> nat \<Rightarrow> io \<Rightarrow> ret \<times> u8 list \<times> io" where
  "modbus_send mb_param query query_size io =
     (let (query1, query_size1) =
            (if type_com mb_param = RTU then
               (let s_crc = crc16 query (of_nat query_size)
                in (query[query_size := ucast (drop_bit 8 s_crc),
                          query_size + 1 := ucast (s_crc AND 0x00FF)],
                    query_size + 2))
             else (set_packet_length_tcp query query_size, query_size));
          write_ret = wr io query_size1;
          io1 = io\<lparr>tx := tx io @ [take query_size1 query1]\<rparr>
      in if write_ret = - 1 \<or> write_ret \<noteq> int query_size1
         then (Inl PORT_SOCKET_FAILURE, query1, io1)
         else (Inr write_ret, query1, io1))"

section \<open>Receiving\<close>

definition compute_query_size_header :: "u8 \<Rightarrow> u8" where
  "compute_query_size_header function =
     (if function \<le> FC_FORCE_SINGLE_COIL then 4
      else if function = FC_FORCE_MULTIPLE_COILS \<or> function = FC_PRESET_MULTIPLE_REGISTERS
      then 5
      else 0)"

text \<open>The sum is a \<^verbatim>\<open>uint8_t\<close>: it wraps.\<close>

definition compute_query_size_data :: "modbus_param \<Rightarrow> u8 list \<Rightarrow> u8" where
  "compute_query_size_data mb_param msg =
     (let function = msg ! (header_length mb_param + 1);
          byte = (if function = FC_FORCE_MULTIPLE_COILS \<or>
                     function = FC_PRESET_MULTIPLE_REGISTERS
                  then msg ! (header_length mb_param + 6)
                  else 0)
      in byte + of_nat (checksum_size mb_param))"

text \<open>
  The macro \<^verbatim>\<open>WAIT_DATA\<close>: \<^verbatim>\<open>select\<close> is called again after a signal; a failure
  gives \<^verbatim>\<open>SELECT_FAILURE\<close> and a timeout \<^verbatim>\<open>COMM_TIME_OUT\<close>. \<open>None\<close> means that the
  descriptor is readable.
\<close>

fun wait_data :: "event list \<Rightarrow> error option \<times> event list" where
  "wait_data [] = (Some COMM_TIME_OUT, [])"
| "wait_data (Silence # es) = (Some COMM_TIME_OUT, es)"
| "wait_data (Eintr # es) = wait_data es"
| "wait_data (Select_error # es) = (Some SELECT_FAILURE, es)"
| "wait_data (Data c # es) = (None, Data c # es)"
| "wait_data (Read_error # es) = (None, Read_error # es)"

text \<open>
  \<^verbatim>\<open>read\<close> or \<^verbatim>\<open>recv\<close> of at most \<open>n\<close> bytes: the value returned, the bytes stored and
  what is still to arrive.
\<close>

fun read_fd :: "event list \<Rightarrow> nat \<Rightarrow> int \<times> u8 list \<times> event list" where
  "read_fd (Data c # es) n =
     (int (min n (length c)), take n c, if length c \<le> n then es else Data (drop n c) # es)"
| "read_fd (Read_error # es) n = (- 1, [], es)"
| "read_fd es n = (0, [], es)"

datatype rstate = FUNCTION | BYTE | COMPLETE

text \<open>
  The end of the body of the \<^verbatim>\<open>while\<close> loop of \<^verbatim>\<open>receive_msg\<close>, once \<open>msg\<close> holds
  the bytes read so far: the new \<open>size_to_read\<close>, \<open>msg_size_computed\<close> and \<open>state\<close>.
\<close>

definition next_target :: "modbus_param \<Rightarrow> rstate \<Rightarrow> nat \<Rightarrow> u8 list \<Rightarrow> nat \<times> nat \<times> rstate" where
  "next_target mb_param state msg_size_computed msg =
     (if length msg < msg_size_computed
      then (msg_size_computed - length msg, msg_size_computed, state)
      else (case state of
              FUNCTION \<Rightarrow>
                (let size_to_read =
                       unat (compute_query_size_header (msg ! (header_length mb_param + 1)))
                 in (size_to_read, msg_size_computed + size_to_read, BYTE))
            | BYTE \<Rightarrow>
                (let size_to_read = unat (compute_query_size_data mb_param msg)
                 in (size_to_read, msg_size_computed + size_to_read, COMPLETE))
            | COMPLETE \<Rightarrow> (0, msg_size_computed, COMPLETE)))"

definition weight :: "event list \<Rightarrow> nat" where
  "weight es = sum_list (map (\<lambda>e. case e of Data c \<Rightarrow> Suc (length c) | _ \<Rightarrow> 1) es)"

lemma weight_wait_data: "weight (snd (wait_data es)) \<le> weight es"
  by (induction es rule: wait_data.induct) (simp_all add: weight_def)

lemma weight_read_fd:
  "fst (read_fd es n) \<noteq> - 1 \<Longrightarrow> fst (read_fd es n) \<noteq> 0 \<Longrightarrow>
   weight (snd (snd (read_fd es n))) < weight es"
  by (induction es n rule: read_fd.induct) (auto simp add: weight_def min_def split: if_splits)

text \<open>
  The \<^verbatim>\<open>while (select_ret)\<close> loop of \<^verbatim>\<open>receive_msg\<close>. \<open>msg\<close> is what has been read
  (its length is \<^verbatim>\<open>*msg_size\<close>); the result is the value that \<^verbatim>\<open>receive_msg\<close> returns,
  the bytes read and the events left.
\<close>

function receive_loop ::
  "modbus_param \<Rightarrow> rstate \<Rightarrow> nat \<Rightarrow> nat \<Rightarrow> u8 list \<Rightarrow> event list \<Rightarrow> ret \<times> u8 list \<times> event list" where
  "receive_loop mb_param state msg_size_computed size_to_read msg es =
     (let r = read_fd es size_to_read;
          msg1 = msg @ fst (snd r);
          es1 = snd (snd r);
          t = next_target mb_param state msg_size_computed msg1
      in if fst r = - 1 then (Inl PORT_SOCKET_FAILURE, msg, es1)
         else if fst r = 0 then (Inl CONNECTION_CLOSED, msg, es1)
         else if MAX_PACKET_SIZE < length msg1 then (Inl TOO_MANY_DATAS, msg1, es1)
         else if 0 < fst t then
           (case fst (wait_data es1) of
              Some e \<Rightarrow> (Inl e, msg1, snd (wait_data es1))
            | None \<Rightarrow>
                receive_loop mb_param (snd (snd t)) (fst (snd t)) (fst t) msg1
                  (snd (wait_data es1)))
         else (Inr 0, msg1, es1))"
  by pat_completeness auto
termination
proof (relation "measure (\<lambda>(mb_param, state, msg_size_computed, size_to_read, msg, es). weight es)")
  show "wf (measure (\<lambda>(mb_param, state, msg_size_computed, size_to_read, msg, es). weight es))"
    by simp
next
  fix mb_param :: modbus_param and state :: rstate and msg_size_computed size_to_read :: nat
    and msg :: "u8 list" and es :: "event list" and r msg1 es1 t
  assume r: "r = read_fd es size_to_read" and es1: "es1 = snd (snd r)"
    and "fst r \<noteq> - 1" "fst r \<noteq> 0"
  have "weight (snd (wait_data es1)) \<le> weight es1"
    by (rule weight_wait_data)
  moreover have "weight es1 < weight es"
    using weight_read_fd [of es size_to_read] \<open>fst r \<noteq> - 1\<close> \<open>fst r \<noteq> 0\<close> r es1 by simp
  ultimately show
    "((mb_param, snd (snd t), fst (snd t), fst t, msg1, snd (wait_data es1)),
      (mb_param, state, msg_size_computed, size_to_read, msg, es))
     \<in> measure (\<lambda>(mb_param, state, msg_size_computed, size_to_read, msg, es). weight es)"
    by simp
qed

declare receive_loop.simps [simp del]

text \<open>
  \<^verbatim>\<open>receive_msg\<close>. \<open>None\<close> for \<open>msg_size_computed\<close> is \<^verbatim>\<open>MSG_SIZE_UNDEFINED\<close>. The
  caller's buffer \<open>msg\<close> is overwritten from its start by what is read, and its
  \<^verbatim>\<open>*msg_size\<close> is assigned only after the first wait has succeeded.
\<close>

definition receive_msg ::
  "modbus_param \<Rightarrow> nat option \<Rightarrow> u8 list \<Rightarrow> int \<Rightarrow> io \<Rightarrow> ret \<times> u8 list \<times> int \<times> io" where
  "receive_msg mb_param msg_size_computed msg msg_size io =
     (let start = (case msg_size_computed of
                     None \<Rightarrow> (header_length mb_param + 2, FUNCTION)
                   | Some n \<Rightarrow> (n, COMPLETE));
          w = wait_data (rx io)
      in case fst w of
           Some e \<Rightarrow> (Inl e, msg, msg_size, io\<lparr>rx := snd w\<rparr>)
         | None \<Rightarrow>
             (let l = receive_loop mb_param (snd start) (fst start) (fst start) [] (snd w);
                  received = fst (snd l)
              in (fst l, received @ drop (length received) msg, int (length received),
                  io\<lparr>rx := snd (snd l)\<rparr>)))"

section \<open>Checking a response\<close>

definition NB_TAB_ERROR_MSG :: int where "NB_TAB_ERROR_MSG = 12"

text \<open>
  \<^verbatim>\<open>modbus_check_response\<close>. The local \<^verbatim>\<open>response_size\<close> is not initialised: its
  first value is the argument \<open>response_size0\<close>. The result is the value returned, the
  response buffer and the transport.
\<close>

definition modbus_check_response ::
  "modbus_param \<Rightarrow> u8 list \<Rightarrow> u8 list \<Rightarrow> int \<Rightarrow> io \<Rightarrow> ret \<times> u8 list \<times> io" where
  "modbus_check_response mb_param query response0 response_size0 io =
     (let offset = header_length mb_param;
          response_size_computed = compute_response_size mb_param query;
          m = receive_msg mb_param (Some response_size_computed) response0 response_size0 io;
          ret = fst m;
          response = fst (snd m);
          response_size = fst (snd (snd m));
          io1 = snd (snd (snd m));
          fc = response ! (offset + 1)
      in if ret = Inr 0 then
           (if check_crc16 mb_param response (nat response_size) \<noteq> Inr 0
            then (check_crc16 mb_param response (nat response_size), response, io1)
            else if fc = FC_READ_COIL_STATUS \<or> fc = FC_READ_INPUT_STATUS
            then (Inr (uint (response ! (offset + 2))), response, io1)
            else if fc = FC_READ_HOLDING_REGISTERS \<or> fc = FC_READ_INPUT_REGISTERS
            then (Inr (uint (response ! (offset + 2)) div 2), response, io1)
            else if fc = FC_FORCE_MULTIPLE_COILS \<or> fc = FC_PRESET_MULTIPLE_REGISTERS
            then (Inr (int (field16 response (offset + 4))), response, io1)
            else if fc = FC_REPORT_SLAVE_ID
            then (Inr response_size, response, io1)
            else (Inr 1, response, io1))
         else if ret = Inl COMM_TIME_OUT \<and>
                 response_size = int (offset + 3 + checksum_size mb_param) then
           (if check_crc16 mb_param response (nat response_size) \<noteq> Inr 0
            then (check_crc16 mb_param response (nat response_size), response, io1)
            else if 0x80 + uint (query ! (offset + 1)) = uint (response ! (offset + 1))
            then (if uint (response ! (offset + 2)) < NB_TAB_ERROR_MSG
                  then (Inr (- uint (response ! (offset + 2))), response, io1)
                  else (Inl INVALID_EXCEPTION_CODE, response, io1))
            else (Inr response_size, response, io1))
         else if ret = Inl COMM_TIME_OUT then (Inl COMM_TIME_OUT, response, io1)
         else (ret, response, io1))"

section \<open>Master operations\<close>

text \<open>
  Modelled from the spec: the truth values of \<^verbatim>\<open>modbus.h\<close>. Section 4.5 of the
  specification has 1 and 0 written for a set and a cleared bit.
\<close>

definition TRUE :: u8 where "TRUE = 1"
definition FALSE :: u8 where "FALSE = 0"
definition ON :: u8 where "ON = 1"
definition OFF :: u8 where "OFF = 0"

text \<open>
  The automatic arrays \<^verbatim>\<open>query\<close> and \<^verbatim>\<open>response\<close> of the operations start with
  whatever the stack holds. A destination array of the caller is returned as the list of
  the values stored into it, in the order of the stores. The number of turns of a loop
  \<^verbatim>\<open>for (i = 0; i < ret; i++)\<close> is \<open>turns ret\<close>: none when \<open>ret\<close> is an error code.
\<close>

definition turns :: "ret \<Rightarrow> nat" where
  "turns r = (case r of Inl e \<Rightarrow> 0 | Inr n \<Rightarrow> nat n)"

text \<open>
  The inner loop of \<^verbatim>\<open>read_io_status\<close>, with \<^verbatim>\<open>bit = 1 << k\<close>: it runs while
  \<^verbatim>\<open>bit & 0xff\<close> is not zero and \<open>processed < count\<close>.
\<close>

function unpack_bits :: "nat \<Rightarrow> u8 \<Rightarrow> int \<Rightarrow> int \<Rightarrow> u8 list \<Rightarrow> u8 list \<times> int" where
  "unpack_bits k temp processed count data_dest =
     (if k < 8 \<and> processed < count
      then unpack_bits (k + 1) temp (processed + 1) count
             (data_dest @ [if temp AND push_bit k 1 = 0 then FALSE else TRUE])
      else (data_dest, processed))"
  by pat_completeness auto
termination
  by (relation "measure (\<lambda>(k, temp, processed, count, data_dest). 8 - k)") auto

declare unpack_bits.simps [simp del]

definition read_io_status ::
  "modbus_param \<Rightarrow> int \<Rightarrow> u8 \<Rightarrow> int \<Rightarrow> int \<Rightarrow> u16 \<Rightarrow> io \<Rightarrow> ret \<times> u8 list \<times> u16 \<times> io" where
  "read_io_status mb_param slave function start_addr count t_id io =
     (let b = build_query_packet mb_param (word_of_int slave) function
                (word_of_int start_addr) (word_of_int count)
                (replicate MIN_QUERY_SIZE (junk_byte io)) t_id;
          s = modbus_send mb_param (fst b) (fst (snd b)) io;
          c = modbus_check_response mb_param (fst (snd s))
                (replicate MAX_PACKET_SIZE (junk_byte io)) (junk_int io) (snd (snd s));
          offset = header_length mb_param;
          response = fst (snd c)
      in if positive (fst s) then
           (fst c,
            fst (foldl (\<lambda>d i. unpack_bits 0 (response ! (3 + i)) (snd d) count (fst d))
                   ([], 0) [offset ..< offset + turns (fst c)]),
            snd (snd b), snd (snd c))
         else (fst s, [], snd (snd b), snd (snd s)))"

definition read_coil_status ::
  "modbus_param \<Rightarrow> int \<Rightarrow> int \<Rightarrow> int \<Rightarrow> u16 \<Rightarrow> io \<Rightarrow> ret \<times> u8 list \<times> u16 \<times> io" where
  "read_coil_status mb_param slave start_addr count t_id io =
     (let r = read_io_status mb_param slave FC_READ_COIL_STATUS start_addr count t_id io
      in if positive (fst r) then (Inr count, snd r) else r)"

definition read_input_status ::
  "modbus_param \<Rightarrow> int \<Rightarrow> int \<Rightarrow> int \<Rightarrow> u16 \<Rightarrow> io \<Rightarrow> ret \<times> u8 list \<times> u16 \<times> io" where
  "read_input_status mb_param slave start_addr count t_id io =
     (let r = read_io_status mb_param slave FC_READ_INPUT_STATUS start_addr count t_id io
      in if positive (fst r) then (Inr count, snd r) else r)"

definition read_reg_response ::
  "modbus_param \<Rightarrow> u8 list \<Rightarrow> io \<Rightarrow> ret \<times> u16 list \<times> io" where
  "read_reg_response mb_param query io =
     (let c = modbus_check_response mb_param query
                (replicate MAX_PACKET_SIZE (junk_byte io)) (junk_int io) io;
          response = fst (snd c);
          offset = header_length mb_param
      in (fst c,
          map (\<lambda>i. push_bit 8 (ucast (response ! (offset + 3 + 2 * i))) OR
                    ucast (response ! (offset + 4 + 2 * i)))
            [0 ..< turns (fst c)],
          snd (snd c)))"

definition read_registers ::
  "modbus_param \<Rightarrow> int \<Rightarrow> u8 \<Rightarrow> int \<Rightarrow> int \<Rightarrow> u16 \<Rightarrow> io \<Rightarrow> ret \<times> u16 list \<times> u16 \<times> io" where
  "read_registers mb_param slave function start_addr count t_id io =
     (let b = build_query_packet mb_param (word_of_int slave) function
                (word_of_int start_addr) (word_of_int count)
                (replicate MIN_QUERY_SIZE (junk_byte io)) t_id;
          s = modbus_send mb_param (fst b) (fst (snd b)) io;
          r = read_reg_response mb_param (fst (snd s)) (snd (snd s))
      in if positive (fst s) then (fst r, fst (snd r), snd (snd b), snd (snd r))
         else (fst s, [], snd (snd b), snd (snd s)))"

definition read_holding_registers ::
  "modbus_param \<Rightarrow> int \<Rightarrow> int \<Rightarrow> int \<Rightarrow> u16 \<Rightarrow> io \<Rightarrow> ret \<times> u16 list \<times> u16 \<times> io" where
  "read_holding_registers mb_param slave start_addr count t_id io =
     read_registers mb_param slave FC_READ_HOLDING_REGISTERS start_addr
       (if MAX_READ_HOLD_REGS < count then MAX_READ_HOLD_REGS else count) t_id io"

definition read_input_registers ::
  "modbus_param \<Rightarrow> int \<Rightarrow> int \<Rightarrow> int \<Rightarrow> u16 \<Rightarrow> io \<Rightarrow> ret \<times> u16 list \<times> u16 \<times> io" where
  "read_input_registers mb_param slave start_addr count t_id io =
     read_registers mb_param slave FC_READ_INPUT_REGISTERS start_addr
       (if MAX_READ_INPUT_REGS < count then MAX_READ_INPUT_REGS else count) t_id io"

definition preset_response :: "modbus_param \<Rightarrow> u8 list \<Rightarrow> io \<Rightarrow> ret \<times> io" where
  "preset_response mb_param query io =
     (let c = modbus_check_response mb_param query
                (replicate MAX_PACKET_SIZE (junk_byte io)) (junk_int io) io
      in (fst c, snd (snd c)))"

definition set_single ::
  "modbus_param \<Rightarrow> int \<Rightarrow> u8 \<Rightarrow> int \<Rightarrow> int \<Rightarrow> u16 \<Rightarrow> io \<Rightarrow> ret \<times> u16 \<times> io" where
  "set_single mb_param slave function addr v t_id io =
     (let b = build_query_packet mb_param (word_of_int slave) function
                (word_of_int addr) (word_of_int v)
                (replicate MAX_PACKET_SIZE (junk_byte io)) t_id;
          s = modbus_send mb_param (fst b) (fst (snd b)) io;
          r = preset_response mb_param (fst (snd s)) (snd (snd s))
      in if positive (fst s) then (fst r, snd (snd b), snd r)
         else (fst s, snd (snd b), snd (snd s)))"

definition force_single_coil ::
  "modbus_param \<Rightarrow> int \<Rightarrow> int \<Rightarrow> int \<Rightarrow> u16 \<Rightarrow> io \<Rightarrow> ret \<times> u16 \<times> io" where
  "force_single_coil mb_param slave coil_addr state t_id io =
     set_single mb_param slave FC_FORCE_SINGLE_COIL coil_addr
       (if state \<noteq> 0 then 0xFF00 else state) t_id io"

definition preset_single_register ::
  "modbus_param \<Rightarrow> int \<Rightarrow> int \<Rightarrow> int \<Rightarrow> u16 \<Rightarrow> io \<Rightarrow> ret \<times> u16 \<times> io" where
  "preset_single_register mb_param slave reg_addr v t_id io =
     set_single mb_param slave FC_PRESET_SINGLE_REGISTER reg_addr v t_id io"

text \<open>
  The \<^verbatim>\<open>while\<close> loop of \<^verbatim>\<open>force_multiple_coils\<close> on the byte \<^verbatim>\<open>query[query_size]\<close>,
  with \<^verbatim>\<open>bit = 1 << k\<close>. The test \<^verbatim>\<open>coil_check++ < coil_count\<close> counts also when it
  fails. The result is the byte, \<open>coil_check\<close> and \<open>pos\<close>.
\<close>

function pack_coils :: "nat \<Rightarrow> u8 \<Rightarrow> int \<Rightarrow> nat \<Rightarrow> int \<Rightarrow> u8 list \<Rightarrow> u8 \<times> int \<times> nat" where
  "pack_coils k byte coil_check pos coil_count data_src =
     (if k < 8 then
        (if coil_check < coil_count
         then pack_coils (k + 1)
                (if data_src ! pos \<noteq> 0 then byte OR push_bit k 1
                 else byte AND NOT (push_bit k 1))
                (coil_check + 1) (pos + 1) coil_count data_src
         else (byte, coil_check + 1, pos))
      else (byte, coil_check, pos))"
  by pat_completeness auto
termination
  by (relation "measure (\<lambda>(k, byte, coil_check, pos, coil_count, data_src). 8 - k)") auto

declare pack_coils.simps [simp del]

text \<open>C's \<^verbatim>\<open>/\<close> and \<^verbatim>\<open>%\<close> truncate towards zero: \<open>sdiv\<close> and \<open>smod\<close>.\<close>

definition bytes_for :: "int \<Rightarrow> int" where
  "bytes_for n = n sdiv 8 + (if n smod 8 \<noteq> 0 then 1 else 0)"

text \<open>
  The \<^verbatim>\<open>for\<close> loop of \<^verbatim>\<open>force_multiple_coils\<close> over \<open>byte_count\<close> bytes; the state is
  the buffer, \<open>query_size\<close>, \<open>coil_check\<close> and \<open>pos\<close>.
\<close>

definition force_coils_loop ::
  "u8 list \<Rightarrow> int \<Rightarrow> u8 list \<Rightarrow> nat \<Rightarrow> nat \<Rightarrow> u8 list \<times> nat \<times> int \<times> nat" where
  "force_coils_loop data_src coil_count query query_size byte_count =
     foldl (\<lambda>(query, query_size, coil_check, pos) i.
              (let p = pack_coils 0 0 coil_check pos coil_count data_src
               in (query[query_size := fst p], query_size + 1, fst (snd p), snd (snd p))))
       (query, query_size, 0, 0) [0 ..< byte_count]"

definition force_multiple_coils ::
  "modbus_param \<Rightarrow> int \<Rightarrow> int \<Rightarrow> int \<Rightarrow> u8 list \<Rightarrow> u16 \<Rightarrow> io \<Rightarrow> ret \<times> u16 \<times> io" where
  "force_multiple_coils mb_param slave start_addr coil_count0 data_src t_id io =
     (let coil_count = (if MAX_WRITE_COILS < coil_count0 then MAX_WRITE_COILS else coil_count0);
          b = build_query_packet mb_param (word_of_int slave) FC_FORCE_MULTIPLE_COILS
                (word_of_int start_addr) (word_of_int coil_count)
                (replicate MAX_PACKET_SIZE (junk_byte io)) t_id;
          byte_count = bytes_for coil_count;
          query = (fst b)[fst (snd b) := word_of_int byte_count];
          query_size = fst (snd b) + 1;
          q = force_coils_loop data_src coil_count query query_size (nat byte_count);
          s = modbus_send mb_param (fst q) (fst (snd q)) io;
          r = preset_response mb_param (fst (snd s)) (snd (snd s))
      in if positive (fst s) then (fst r, snd (snd b), snd r)
         else (fst s, snd (snd b), snd (snd s)))"

text \<open>The \<^verbatim>\<open>for\<close> loop of \<^verbatim>\<open>preset_multiple_registers\<close> over \<open>reg_count\<close> registers.\<close>

definition preset_registers_loop :: "u16 list \<Rightarrow> u8 list \<Rightarrow> nat \<Rightarrow> nat \<Rightarrow> u8 list \<times> nat" where
  "preset_registers_loop data_src query query_size reg_count =
     foldl (\<lambda>(query, query_size) i.
              (query[query_size := ucast (drop_bit 8 (data_src ! i)),
                     query_size + 1 := ucast (data_src ! i AND 0x00FF)],
               query_size + 2))
       (query, query_size) [0 ..< reg_count]"

definition preset_multiple_registers ::
  "modbus_param \<Rightarrow> int \<Rightarrow> int \<Rightarrow> int \<Rightarrow> u16 list \<Rightarrow> u16 \<Rightarrow> io \<Rightarrow> ret \<times> u16 \<times> io" where
  "preset_multiple_registers mb_param slave start_addr reg_count0 data_src t_id io =
     (let reg_count = (if MAX_WRITE_REGS < reg_count0 then MAX_WRITE_REGS else reg_count0);
          b = build_query_packet mb_param (word_of_int slave) FC_PRESET_MULTIPLE_REGISTERS
                (word_of_int start_addr) (word_of_int reg_count)
                (replicate MAX_PACKET_SIZE (junk_byte io)) t_id;
          byte_count = reg_count * 2;
          query = (fst b)[fst (snd b) := word_of_int byte_count];
          query_size = fst (snd b) + 1;
          q = preset_registers_loop data_src query query_size (nat reg_count);
          s = modbus_send mb_param (fst q) (snd q) io;
          r = preset_response mb_param (fst (snd s)) (snd (snd s))
      in if positive (fst s) then (fst r, snd (snd b), snd r)
         else (fst s, snd (snd b), snd (snd s)))"

text \<open>
  \<^verbatim>\<open>report_slave_id\<close> stores \<^verbatim>\<open>response[i]\<close> into \<^verbatim>\<open>data_dest[i]\<close> for the indices
  from \<open>offset\<close>.
\<close>

definition report_slave_id ::
  "modbus_param \<Rightarrow> int \<Rightarrow> u16 \<Rightarrow> io \<Rightarrow> ret \<times> u8 list \<times> u16 \<times> io" where
  "report_slave_id mb_param slave t_id io =
     (let b = build_query_packet mb_param (word_of_int slave) FC_REPORT_SLAVE_ID 0 0
                (replicate MIN_QUERY_SIZE (junk_byte io)) t_id;
          s = modbus_send mb_param (fst b) (fst (snd b) - 4) io;
          c = modbus_check_response mb_param (fst (snd s))
                (replicate MAX_PACKET_SIZE (junk_byte io)) (junk_int io) (snd (snd s));
          offset = header_length mb_param
      in if positive (fst s) then
           (fst c, map (\<lambda>i. fst (snd c) ! i) [offset ..< offset + turns (fst c)],
            snd (snd b), snd (snd c))
         else (fst s, [], snd (snd b), snd (snd s)))"

section \<open>The server\<close>

text \<open>
  \<^verbatim>\<open>modbus_mapping_t\<close>: each table is an array of as many entries as the mapping
  declares for it, so the declared length of a table is the length of its list.
\<close>

record modbus_mapping =
  tab_coil_status :: "u8 list"
  tab_input_status :: "u8 list"
  tab_holding_registers :: "u16 list"
  tab_input_registers :: "u16 list"

text \<open>
  Modelled from the spec: \<^verbatim>\<open>PRESET_RESPONSE_SIZE_RTU\<close> and \<^verbatim>\<open>PRESET_RESPONSE_SIZE_TCP\<close>
  are macros of \<^verbatim>\<open>modbus.h\<close>. After section 4.3 of the specification a response starts
  with the unit, the function code and the byte count, behind the header of the
  envelope; the builders return these macros plus one, the index behind the byte count.
\<close>

definition PRESET_RESPONSE_SIZE_RTU :: nat where "PRESET_RESPONSE_SIZE_RTU = 2"
definition PRESET_RESPONSE_SIZE_TCP :: nat where "PRESET_RESPONSE_SIZE_TCP = 8"

definition build_response_packet_rtu :: "u8 \<Rightarrow> u8 \<Rightarrow> u8 \<Rightarrow> u8 list \<Rightarrow> u8 list \<times> nat" where
  "build_response_packet_rtu slave function byte_count packet =
     (packet[0 := slave, 1 := function, 2 := byte_count], PRESET_RESPONSE_SIZE_RTU + 1)"

text \<open>\<^verbatim>\<open>build_response_packet_tcp\<close> has a \<^verbatim>\<open>static uint16_t t_id\<close> of its own.\<close>

definition build_response_packet_tcp ::
  "u8 \<Rightarrow> u8 \<Rightarrow> u8 \<Rightarrow> u8 list \<Rightarrow> u16 \<Rightarrow> u8 list \<times> nat \<times> u16" where
  "build_response_packet_tcp slave function byte_count packet t_id0 =
     (let t_id = next_t_id t_id0
      in (packet[0 := ucast (drop_bit 8 t_id),
                 1 := ucast (t_id AND 0x00ff),
                 2 := 0,
                 3 := 0,
                 6 := slave,
                 7 := function,
                 8 := byte_count],
          PRESET_RESPONSE_SIZE_TCP + 1, t_id))"

definition build_response_packet ::
  "modbus_param \<Rightarrow> u8 \<Rightarrow> u8 \<Rightarrow> u8 \<Rightarrow> u8 list \<Rightarrow> u16 \<Rightarrow> u8 list \<times> nat \<times> u16" where
  "build_response_packet mb_param slave function byte_count packet t_id =
     (if type_com mb_param = RTU then
        (case build_response_packet_rtu slave function byte_count packet of
           (packet1, n) \<Rightarrow> (packet1, n, t_id))
      else build_response_packet_tcp slave function byte_count packet t_id)"

text \<open>
  \<^verbatim>\<open>response_io_status\<close>. Its \<open>address\<close> parameter is a \<^verbatim>\<open>uint8_t\<close> and its \<open>count\<close>
  a \<^verbatim>\<open>uint16_t\<close>; \<open>shift\<close> and \<open>byte\<close> are bytes, so the shifted table entry is cut to
  eight bits. The first definition is the body of the \<^verbatim>\<open>for\<close> loop, on \<open>shift\<close>,
  \<open>byte\<close>, the buffer and \<open>offset\<close>.
\<close>

definition response_io_status_step ::
  "u8 list \<Rightarrow> nat \<times> u8 \<times> u8 list \<times> nat \<Rightarrow> nat \<Rightarrow> nat \<times> u8 \<times> u8 list \<times> nat" where
  "response_io_status_step tab_io_status =
     (\<lambda>(shift, byte, response, offset) i.
        (let byte1 = byte OR push_bit shift (tab_io_status ! i)
         in if shift = 7 then (0, 0, response[offset := byte1], offset + 1)
            else (shift + 1, byte1, response, offset)))"

definition response_io_status :: "u8 \<Rightarrow> u16 \<Rightarrow> u8 list \<Rightarrow> u8 list \<Rightarrow> nat \<Rightarrow> u8 list \<times> nat" where
  "response_io_status address count tab_io_status response offset =
     (case foldl (response_io_status_step tab_io_status) (0, 0, response, offset)
             [unat address ..< unat address + unat count] of
        (shift, byte, response1, offset1) \<Rightarrow>
          if shift \<noteq> 0 then (response1[offset1 := byte], offset1 + 1)
          else (response1, offset1))"

text \<open>
  C checks no index. An access outside an array is undefined behaviour; the model of
  \<^verbatim>\<open>manage_query\<close> gives it the result \<open>Out_of_bounds\<close> instead of a value.
\<close>

datatype fault = Out_of_bounds

text \<open>The last statement of \<^verbatim>\<open>manage_query\<close>: \<^verbatim>\<open>modbus_send(mb_param, response, offset)\<close>.\<close>

definition send_response ::
  "modbus_param \<Rightarrow> u8 list \<Rightarrow> nat \<Rightarrow> modbus_mapping \<Rightarrow> u16 \<Rightarrow> io \<Rightarrow>
   fault + modbus_mapping \<times> u16 \<times> io" where
  "send_response mb_param response offset mb_mapping t_id io =
     (if offset + checksum_size mb_param \<le> length response
      then Inr (mb_mapping, t_id, snd (snd (modbus_send mb_param response offset io)))
      else Inl Out_of_bounds)"

text \<open>The two loops of \<^verbatim>\<open>manage_query\<close> that copy registers, high byte first.\<close>

definition response_registers :: "nat \<Rightarrow> nat \<Rightarrow> u16 list \<Rightarrow> u8 list \<Rightarrow> nat \<Rightarrow> u8 list \<times> nat" where
  "response_registers address count tab response offset =
     foldl (\<lambda>(response, offset) i.
              (response[offset := ucast (drop_bit 8 (tab ! i)),
                        offset + 1 := ucast (tab ! i AND 0xFF)],
               offset + 2))
       (response, offset) [address ..< address + count]"

text \<open>
  \<^verbatim>\<open>manage_query\<close>. The result is the mapping, the transaction identifier of the
  response builder and the transport, or \<open>Out_of_bounds\<close>. \<open>address\<close>, \<open>count\<close> and
  \<open>data\<close> are the \<^verbatim>\<open>int\<close> values \<^verbatim>\<open>(query[i] << 8) + query[i + 1]\<close>; they are
  converted where the callee takes a \<^verbatim>\<open>uint8_t\<close> or a \<^verbatim>\<open>uint16_t\<close>.
\<close>

definition manage_query ::
  "modbus_param \<Rightarrow> u8 list \<Rightarrow> nat \<Rightarrow> modbus_mapping \<Rightarrow> u16 \<Rightarrow> io \<Rightarrow>
   fault + modbus_mapping \<times> u16 \<times> io" where
  "manage_query mb_param query query_size mb_mapping t_id io =
     (let offset = header_length mb_param;
          slave = query ! offset;
          function = query ! (offset + 1);
          address = push_bit 8 (uint (query ! (offset + 2))) + uint (query ! (offset + 3));
          count = push_bit 8 (uint (query ! (offset + 4))) + uint (query ! (offset + 5));
          data = count;
          response = replicate MAX_PACKET_SIZE (junk_byte io)
      in if function = FC_READ_COIL_STATUS then
           (let byte_count = count div 8 + (if count mod 8 = 0 then 0 else 1);
                b = build_response_packet mb_param slave function (word_of_int byte_count)
                      response t_id
            in if count = 0 \<or>
                  uint (word_of_int address :: u8) + count \<le> int (length (tab_coil_status mb_mapping))
               then (let r = response_io_status (word_of_int address) (word_of_int count)
                               (tab_coil_status mb_mapping) (fst b) (fst (snd b))
                     in if snd r \<le> length response
                        then send_response mb_param (fst r) (snd r) mb_mapping (snd (snd b)) io
                        else Inl Out_of_bounds)
               else Inl Out_of_bounds)
         else if function = FC_READ_INPUT_STATUS then
           (let byte_count = count div 8 + (if count mod 8 = 0 then 0 else 1);
                b = build_response_packet mb_param slave function (word_of_int byte_count)
                      response t_id
            in if count = 0 \<or>
                  uint (word_of_int address :: u8) + count \<le> int (length (tab_input_status mb_mapping))
               then (let r = response_io_status (word_of_int address) (word_of_int count)
                               (tab_input_status mb_mapping) (fst b) (fst (snd b))
                     in if snd r \<le> length response
                        then send_response mb_param (fst r) (snd r) mb_mapping (snd (snd b)) io
                        else Inl Out_of_bounds)
               else Inl Out_of_bounds)
         else if function = FC_READ_HOLDING_REGISTERS then
           (let byte_count = 2 * count;
                b = build_response_packet mb_param slave function (word_of_int byte_count)
                      response t_id
            in if count = 0 \<or> address + count \<le> int (length (tab_holding_registers mb_mapping))
               then (let r = response_registers (nat address) (nat count) (tab_holding_registers mb_mapping)
                               (fst b) (fst (snd b))
                     in if snd r \<le> length response
                        then send_response mb_param (fst r) (snd r) mb_mapping (snd (snd b)) io
                        else Inl Out_of_bounds)
               else Inl Out_of_bounds)
         else if function = FC_READ_INPUT_REGISTERS then
           (let byte_count = 2 * count;
                b = build_response_packet mb_param slave function (word_of_int byte_count)
                      response t_id
            in if count = 0 \<or> address + count \<le> int (length (tab_input_registers mb_mapping))
               then (let r = response_registers (nat address) (nat count) (tab_input_registers mb_mapping)
                               (fst b) (fst (snd b))
                     in if snd r \<le> length response
                        then send_response mb_param (fst r) (snd r) mb_mapping (snd (snd b)) io
                        else Inl Out_of_bounds)
               else Inl Out_of_bounds)
         else if function = FC_FORCE_SINGLE_COIL then
           (let response1 = take query_size query @ drop query_size response
            in if query_size \<le> length query \<and> query_size \<le> length response then
                 (if data = 0xFF00 then
                    (if address < int (length (tab_coil_status mb_mapping))
                     then send_response mb_param response1 query_size
                            (mb_mapping\<lparr>tab_coil_status :=
                               (tab_coil_status mb_mapping)[nat address := ON]\<rparr>)
                            t_id io
                     else Inl Out_of_bounds)
                  else if data = 0x0 then
                    (if address < int (length (tab_coil_status mb_mapping))
                     then send_response mb_param response1 query_size
                            (mb_mapping\<lparr>tab_coil_status :=
                               (tab_coil_status mb_mapping)[nat address := OFF]\<rparr>)
                            t_id io
                     else Inl Out_of_bounds)
                  else send_response mb_param response1 query_size mb_mapping t_id io)
               else Inl Out_of_bounds)
         else send_response mb_param response offset mb_mapping t_id io)"

definition modbus_listen ::
  "modbus_param \<Rightarrow> u8 list \<Rightarrow> int \<Rightarrow> io \<Rightarrow> ret \<times> u8 list \<times> int \<times> io" where
  "modbus_listen mb_param query query_size io =
     (let m = receive_msg mb_param None query query_size io
      in if fst m = Inr 0
         then (check_crc16 mb_param (fst (snd m)) (nat (fst (snd (snd m)))), snd m)
         else m)"

section \<open>Utilities\<close>

text \<open>
  The callers of these three functions own the arrays; the indices are inside them when
  the arrays hold \<open>address + nb_bits\<close> entries (and \<open>tab_byte\<close> one byte for every eight
  bits). \<open>set_bits_step\<close> is the body of the loop of \<^verbatim>\<open>set_bits_from_bytes\<close>, on the
  array and \<open>shift\<close>.
\<close>

definition set_bits_from_byte :: "u8 list \<Rightarrow> u16 \<Rightarrow> u8 \<Rightarrow> u8 list" where
  "set_bits_from_byte dest address v =
     foldl (\<lambda>dest i. dest[unat address + i := (if v AND push_bit i 1 = 0 then OFF else ON)])
       dest [0 ..< 8]"

definition set_bits_step :: "nat \<Rightarrow> u8 list \<Rightarrow> u8 list \<times> nat \<Rightarrow> nat \<Rightarrow> u8 list \<times> nat" where
  "set_bits_step address tab_byte =
     (\<lambda>(dest, shift) i.
        (dest[i := (if tab_byte ! ((i - address) div 8) AND push_bit shift 1 = 0
                    then OFF else ON)],
         (shift + 1) mod 8))"

definition set_bits_from_bytes :: "u8 list \<Rightarrow> u16 \<Rightarrow> u16 \<Rightarrow> u8 list \<Rightarrow> u8 list" where
  "set_bits_from_bytes dest address nb_bits tab_byte =
     fst (foldl (set_bits_step (unat address) tab_byte) (dest, 0)
            [unat address ..< unat address + unat nb_bits])"

definition get_byte_from_bits :: "u8 list \<Rightarrow> u16 \<Rightarrow> int \<Rightarrow> u8" where
  "get_byte_from_bits src address nb_bits0 =
     (let nb_bits = (if 8 < nb_bits0 then 8 else nb_bits0)
      in foldl (\<lambda>v i. v OR push_bit i (src ! (unat address + i))) 0 [0 ..< nat nb_bits])"

section \<open>A transport for the examples\<close>

text \<open>Nothing arrives, nothing has been sent, and every write is complete.\<close>

definition idle_line :: io where
  "idle_line = \<lparr>rx = [], tx = [], wr = int, junk_int = 0, junk_byte = 0\<rparr>"

text \<open>A mapping with 32 coils, the last 16 of them on, and 8 registers in each table.\<close>

definition map32 :: modbus_mapping where
  "map32 = \<lparr>tab_coil_status = replicate 16 OFF @ replicate 16 ON,
             tab_input_status = replicate 32 OFF,
             tab_holding_registers = replicate 8 0,
             tab_input_registers = replicate 8 0\<rparr>"

text \<open>
  What a run of \<^verbatim>\<open>manage_query\<close> leaves behind: the mapping and the frames handed to
  the transport, or the fault.
\<close>

definition served :: "fault + modbus_mapping \<times> u16 \<times> io \<Rightarrow> fault + modbus_mapping \<times> u8 list list" where
  "served r = (case r of Inl f \<Rightarrow> Inl f | Inr (m, t, io) \<Rightarrow> Inr (m, tx io))"

text \<open>
  The exception response of a peer to a request with the function code \<open>fc\<close>: behind the
  header of the envelope the unit, \<^verbatim>\<open>fc | 0x80\<close> and the exception code \<open>k\<close>, and in RTU
  the CRC of these bytes in the order in which \<^verbatim>\<open>modbus_send\<close> stores it.
\<close>

definition exception_frame :: "modbus_param \<Rightarrow> u8 list \<Rightarrow> u8 \<Rightarrow> u8 \<Rightarrow> u8 \<Rightarrow> u8 list" where
  "exception_frame mb_param hdr unit fc k =
     (let pdu = hdr @ [unit, fc OR 0x80, k];
          s_crc = crc16 pdu (of_nat (length pdu))
      in if type_com mb_param = RTU
         then pdu @ [ucast (drop_bit 8 s_crc), ucast (s_crc AND 0x00FF)]
         else pdu)"

text \<open>
  The public operations of the master as one function: an operation with its arguments
  behind the handle and the unit, its function code, and the status that it returns.
  A read is well formed when it asks for at least one value and its count fits the
  16-bit quantity field.
\<close>

datatype operation =
    Read_coil_status int int
  | Read_input_status int int
  | Read_holding_registers int int
  | Read_input_registers int int
  | Force_single_coil int int
  | Preset_single_register int int
  | Force_multiple_coils int int "u8 list"
  | Preset_multiple_registers int int "u16 list"
  | Report_slave_id

fun function_code :: "operation \<Rightarrow> u8" where
  "function_code (Read_coil_status a n) = FC_READ_COIL_STATUS"
| "function_code (Read_input_status a n) = FC_READ_INPUT_STATUS"
| "function_code (Read_holding_registers a n) = FC_READ_HOLDING_REGISTERS"
| "function_code (Read_input_registers a n) = FC_READ_INPUT_REGISTERS"
| "function_code (Force_single_coil a v) = FC_FORCE_SINGLE_COIL"
| "function_code (Preset_single_register a v) = FC_PRESET_SINGLE_REGISTER"
| "function_code (Force_multiple_coils a n d) = FC_FORCE_MULTIPLE_COILS"
| "function_code (Preset_multiple_registers a n d) = FC_PRESET_MULTIPLE_REGISTERS"
| "function_code Report_slave_id = FC_REPORT_SLAVE_ID"

fun well_formed :: "operation \<Rightarrow> bool" where
  "well_formed (Read_coil_status a n) \<longleftrightarrow> 0 < n \<and> n < 65536"
| "well_formed (Read_input_status a n) \<longleftrightarrow> 0 < n \<and> n < 65536"
| "well_formed (Read_holding_registers a n) \<longleftrightarrow> 0 < n \<and> n < 65536"
| "well_formed (Read_input_registers a n) \<longleftrightarrow> 0 < n \<and> n < 65536"
| "well_formed _ \<longleftrightarrow> True"

fun perform :: "modbus_param \<Rightarrow> int \<Rightarrow> operation \<Rightarrow> u16 \<Rightarrow> io \<Rightarrow> ret" where
  "perform mb_param slave (Read_coil_status a n) t_id io =
     fst (read_coil_status mb_param slave a n t_id io)"
| "perform mb_param slave (Read_input_status a n) t_id io =
     fst (read_input_status mb_param slave a n t_id io)"
| "perform mb_param slave (Read_holding_registers a n) t_id io =
     fst (read_holding_registers mb_param slave a n t_id io)"
| "perform mb_param slave (Read_input_registers a n) t_id io =
     fst (read_input_registers mb_param slave a n t_id io)"
| "perform mb_param slave (Force_single_coil a v) t_id io =
     fst (force_single_coil mb_param slave a v t_id io)"
| "perform mb_param slave (Preset_single_register a v) t_id io =
     fst (preset_single_register mb_param slave a v t_id io)"
| "perform mb_param slave (Force_multiple_coils a n d) t_id io =
     fst (force_multiple_coils mb_param slave a n d t_id io)"
| "perform mb_param slave (Preset_multiple_registers a n d) t_id io =
     fst (preset_multiple_registers mb_param slave a n d t_id io)"
| "perform mb_param slave Report_slave_id t_id io =
     fst (report_slave_id mb_param slave t_id io)"

text \<open>
  An operation that starts with the transport \<open>io\<close> and ends with \<open>io1\<close> has handed
  exactly one frame to \<^verbatim>\<open>write\<close> or \<^verbatim>\<open>send\<close>, and the quantity field of that frame
  (the two bytes at \<open>header_length + 4\<close>, high byte first) is \<open>qty\<close>.
\<close>

definition one_request :: "modbus_param \<Rightarrow> io \<Rightarrow> io \<Rightarrow> nat \<Rightarrow> bool" where
  "one_request mb_param io io1 qty \<longleftrightarrow>
     tx io1 = tx io @ [last (tx io1)] \<and>
     field16 (last (tx io1)) (header_length mb_param + 4) = qty"

section \<open>Arithmetic of the byte fields\<close>

lemma or_byte_nat: "b < 256 \<Longrightarrow> push_bit 8 (a::nat) OR b = 256 * a + b"
proof -
  assume b: "b < 256"
  have tb: "take_bit 8 b = b"
    using b by (simp add: take_bit_nat_eq_self_iff)
  have "push_bit 8 a AND take_bit 8 b = 0"
    by (simp add: bit_eq_iff bit_simps)
  then have "push_bit 8 a + b = push_bit 8 a OR b"
    using disjunctive_add_eq_or [of "push_bit 8 a" "take_bit 8 b"] tb by simp
  then show ?thesis
    by (simp add: push_bit_eq_mult)
qed

lemma unat_u8_less: "unat (b :: u8) < 256"
  using unsigned_less [of b, where 'a = nat] by simp

lemma unat_u16_less: "unat (w :: u16) < 65536"
  using unsigned_less [of w, where 'a = nat] by simp

lemma field16_eq: "field16 p i = 256 * unat (p ! i) + unat (p ! (i + 1))"
  unfolding field16_def by (rule or_byte_nat) (rule unat_u8_less)

lemma div8I: "8 * q \<le> m \<Longrightarrow> m < 8 * q + 8 \<Longrightarrow> m div 8 = (q :: nat)"
  by (rule div_nat_eqI) simp_all

lemma split8: obtains q r :: nat where "N = 8 * q + r" and "r < 8" and "N div 8 = q" and "N mod 8 = r"
  using that [of "N div 8" "N mod 8"] by simp

lemma ceil8_exact: 
  assumes "(N::nat) mod 8 = 0" shows "(N + 7) div 8 = N div 8"
proof -
  obtain q r where "N = 8 * q + r" "r < 8" "N div 8 = q" "N mod 8 = r"
    by (rule split8)
  with assms show ?thesis
    by (intro div8I) simp_all
qed

lemma ceil8_rest:
  assumes "(N::nat) mod 8 \<noteq> 0" shows "(N + 7) div 8 = N div 8 + 1"
proof -
  obtain q r where "N = 8 * q + r" "r < 8" "N div 8 = q" "N mod 8 = r"
    by (rule split8)
  with assms show ?thesis
    by (intro div8I) simp_all
qed

lemma ceil8: "(q::nat) div 8 + (if q mod 8 = 0 then 0 else 1) = (q + 7) div 8"
  by (simp add: ceil8_exact ceil8_rest)

lemma div8_less_exact:
  assumes "(N::nat) mod 8 = 0" and "i < N" shows "i div 8 < N div 8"
proof -
  obtain q r where "N = 8 * q + r" "r < 8" "N div 8 = q" "N mod 8 = r"
    by (rule split8)
  with assms have "i < q * 8" by simp
  then have "i div 8 < q" by (rule less_mult_imp_div_less)
  with \<open>N div 8 = q\<close> show ?thesis by simp
qed

lemma div8_less_other:
  assumes "i < (N::nat)" and "i div 8 \<noteq> N div 8" shows "i div 8 < N div 8"
proof -
  have "i div 8 \<le> N div 8"
    using assms(1) by (intro div_le_mono) simp
  with assms(2) show ?thesis by simp
qed

lemma mod8_less_same:
  assumes "i < (N::nat)" and "i div 8 = N div 8" shows "i mod 8 < N mod 8"
proof -
  obtain q r where N: "N = 8 * q + r" "N div 8 = q" "N mod 8 = r"
    by (rule split8)
  obtain q' r' where i: "i = 8 * q' + r'" "i div 8 = q'" "i mod 8 = r'"
    by (rule split8)
  from assms(2) N(2) i(2) have "q' = q" by simp
  with assms(1) N(1) i(1) have "r' < r" by simp
  with N(3) i(3) show ?thesis by simp
qed

lemma next_t_id_eq: "next_t_id t = t + 1"
proof (cases "t < 0xFFFF")
  case True
  then show ?thesis
    by (simp add: next_t_id_def)
next
  case False
  have "\<not> unat t < 65535"
    using False by (simp add: word_less_nat_alt)
  with unat_u16_less [of t] have "unat t = unat (0xFFFF :: u16)"
    by simp
  then have "t = 0xFFFF"
    by (simp only: word_unat_eq_iff)
  then show ?thesis
    by (simp add: next_t_id_def)
qed

lemma hi_byte: "unat (ucast (drop_bit 8 (c::u16)) :: u8) = unat c div 256"
proof -
  have "unat c div 256 < 256"
    using unat_u16_less [of c] by simp
  then show ?thesis
    by (simp add: unsigned_ucast_eq unat_drop_bit_eq drop_bit_eq_div take_bit_eq_mod unat_div)
qed

lemma lo_byte: "unat (ucast ((c::u16) AND 0x00ff) :: u8) = unat c mod 256"
proof -
  have "(0x00ff :: u16) = mask 8"
    by (simp add: mask_eq_exp_minus_1)
  then have "c AND 0x00ff = take_bit 8 c"
    by (simp add: take_bit_eq_mask)
  then show ?thesis
    by (simp add: unsigned_ucast_eq unsigned_take_bit_eq take_bit_eq_mod unat_mod)
qed

lemma bytes_u16:
  "256 * unat (ucast (drop_bit 8 (c::u16)) :: u8) + unat (ucast (c AND 0x00ff) :: u8) = unat c"
  by (simp add: hi_byte lo_byte)

lemma crc_bytes_back:
  "push_bit 8 (ucast (ucast (drop_bit 8 (c :: u16)) :: u8)) OR
   ucast (ucast (c AND 0x00FF) :: u8) = c"
proof -
  have m: "(0x00FF :: u16) = mask 8"
    by (simp add: mask_eq_exp_minus_1)
  show ?thesis
    unfolding m by (rule bit_word_eqI) (auto simp add: bit_simps)
qed

lemma top_bit_clear: "unat (fc :: u8) < 128 \<Longrightarrow> \<not> bit fc 7"
proof -
  assume lt: "unat fc < 128"
  then have "unat (fc div 128) = 0"
    by (simp add: unat_div)
  then have "fc div 128 = 0"
    by (simp only: unat_0_iff)
  then show "\<not> bit fc 7"
    by (simp add: bit_iff_odd)
qed

lemma and_0x80: "\<not> bit (fc :: u8) 7 \<Longrightarrow> fc AND 0x80 = 0"
  using and_exp_eq_0_iff_not_bit [of fc 7] by simp

lemma uint_plus_0x80: "unat (fc :: u8) < 128 \<Longrightarrow> uint (fc + 0x80) = uint fc + 0x80"
proof -
  assume lt: "unat fc < 128"
  have u: "unat (0x80 :: u8) = 128"
    by simp
  have "unat fc + unat (0x80 :: u8) < 2 ^ LENGTH(8)"
    unfolding u using lt by simp
  then have "unat (fc + 0x80) = unat fc + unat (0x80 :: u8)"
    by (rule unat_add_lem [THEN iffD1])
  then have "int (unat (fc + 0x80)) = int (unat fc) + 128"
    unfolding u by simp
  then show ?thesis
    by (simp only: uint_nat)
qed

lemma or_0x80:
  assumes "fc < (0x80 :: u8)"
  shows "uint (fc OR 0x80) = 0x80 + uint fc"
proof -
  have lt: "unat fc < 128"
    using assms by (simp add: word_less_nat_alt)
  have "fc AND 0x80 = 0"
    by (rule and_0x80) (rule top_bit_clear [OF lt])
  then have "fc + 0x80 = fc OR 0x80"
    by (rule disjunctive_add_eq_or)
  with uint_plus_0x80 [OF lt] show ?thesis
    by simp
qed

section \<open>What the transport keeps\<close>

lemma receive_msg_tx: "tx (snd (snd (snd (receive_msg mb n msg sz io)))) = tx io"
  by (simp add: receive_msg_def Let_def split: option.split)

lemma modbus_check_response_tx:
  "tx (snd (snd (modbus_check_response mb q r rs io))) = tx io"
  by (simp add: modbus_check_response_def Let_def receive_msg_tx)

lemma init_rtu_simps:
  "type_com modbus_init_rtu = RTU" "header_length modbus_init_rtu = 0" "checksum_size modbus_init_rtu = 2"
  by (simp_all add: modbus_init_rtu_def HEADER_LENGTH_RTU_def CHECKSUM_SIZE_RTU_def)

lemma init_tcp_simps:
  "type_com modbus_init_tcp = TCP" "header_length modbus_init_tcp = 6" "checksum_size modbus_init_tcp = 0"
  by (simp_all add: modbus_init_tcp_def HEADER_LENGTH_TCP_def CHECKSUM_SIZE_TCP_def)

lemma build_query_packet_fields:
  assumes mb: "mb = modbus_init_rtu \<or> mb = modbus_init_tcp" and len: "12 \<le> length packet"
  shows "fst (build_query_packet mb s f a c packet t) ! (header_length mb) = s \<and>
     fst (build_query_packet mb s f a c packet t) ! (header_length mb + 1) = f \<and>
     fst (build_query_packet mb s f a c packet t) ! (header_length mb + 4) = ucast (drop_bit 8 c) \<and>
     fst (build_query_packet mb s f a c packet t) ! (header_length mb + 5) = ucast (c AND 0x00ff) \<and>
     length (fst (build_query_packet mb s f a c packet t)) = length packet \<and>
     fst (snd (build_query_packet mb s f a c packet t)) = header_length mb + 6"
proof -
  from len have ne: "packet \<noteq> []" by auto
  from mb show ?thesis
  proof
    assume "mb = modbus_init_rtu"
    with len ne show ?thesis
      by (auto simp add: build_query_packet_def build_query_packet_rtu_def init_rtu_simps PRESET_QUERY_SIZE_RTU_def)
  next
    assume "mb = modbus_init_tcp"
    with len ne show ?thesis
      by (auto simp add: build_query_packet_def build_query_packet_tcp_def init_tcp_simps PRESET_QUERY_SIZE_TCP_def Let_def)
  qed
qed

lemma modbus_send_tx:
  "tx (snd (snd (modbus_send mb q n io))) = tx io @ [last (tx (snd (snd (modbus_send mb q n io))))]"
  by (simp add: modbus_send_def Let_def split: prod.split)

lemma modbus_send_frame:
  assumes mb: "mb = modbus_init_rtu \<or> mb = modbus_init_tcp"
    and n: "n + checksum_size mb \<le> length q" and i: "header_length mb \<le> i" "i < n"
  shows "last (tx (snd (snd (modbus_send mb q n io)))) ! i = q ! i"
  using mb
proof
  assume "mb = modbus_init_rtu"
  with n i show ?thesis
    by (simp add: modbus_send_def Let_def init_rtu_simps)
next
  assume "mb = modbus_init_tcp"
  with n i show ?thesis
    by (simp add: modbus_send_def Let_def init_tcp_simps set_packet_length_tcp_def)
qed

lemma modbus_send_query:
  assumes mb: "mb = modbus_init_rtu \<or> mb = modbus_init_tcp"
    and n: "n + checksum_size mb \<le> length q" and i: "header_length mb \<le> i" "i < n"
  shows "fst (snd (modbus_send mb q n io)) ! i = q ! i"
  using mb
proof
  assume "mb = modbus_init_rtu"
  with n i show ?thesis
    by (simp add: modbus_send_def Let_def init_rtu_simps)
next
  assume "mb = modbus_init_tcp"
  with n i show ?thesis
    by (simp add: modbus_send_def Let_def init_tcp_simps set_packet_length_tcp_def)
qed

lemma field16_at: "field16 p (h + 4) = 256 * unat (p ! (h + 4)) + unat (p ! (h + 5))"
proof -
  have "h + 4 + 1 = h + 5" by simp
  then show ?thesis by (simp only: field16_eq)
qed

lemma sent_quantity:
  assumes mb: "mb = modbus_init_rtu \<or> mb = modbus_init_tcp"
    and n: "header_length mb + 6 \<le> n" "n + checksum_size mb \<le> length q"
    and hi: "q ! (header_length mb + 4) = ucast (drop_bit 8 (c::u16))"
    and lo: "q ! (header_length mb + 5) = ucast (c AND 0x00ff)"
  shows "field16 (last (tx (snd (snd (modbus_send mb q n io))))) (header_length mb + 4) = unat c"
proof -
  have e4: "last (tx (snd (snd (modbus_send mb q n io)))) ! (header_length mb + 4) = q ! (header_length mb + 4)"
    using mb n by (intro modbus_send_frame) simp_all
  have e5: "last (tx (snd (snd (modbus_send mb q n io)))) ! (header_length mb + 5) = q ! (header_length mb + 5)"
    using mb n by (intro modbus_send_frame) simp_all
  show ?thesis
    unfolding field16_at e4 e5 hi lo by (rule bytes_u16)
qed

lemma preset_response_tx: "tx (snd (preset_response mb q io)) = tx io"
  by (simp add: preset_response_def Let_def modbus_check_response_tx)

lemma set_single_tx:
  "tx (snd (snd (set_single mb slave f addr v t io))) =
   tx (snd (snd (modbus_send mb
      (fst (build_query_packet mb (word_of_int slave) f (word_of_int addr) (word_of_int v)
         (replicate MAX_PACKET_SIZE (junk_byte io)) t))
      (fst (snd (build_query_packet mb (word_of_int slave) f (word_of_int addr) (word_of_int v)
         (replicate MAX_PACKET_SIZE (junk_byte io)) t))) io)))"
  by (simp add: set_single_def Let_def preset_response_tx)

lemma set_single_sent:
  assumes mb: "mb = modbus_init_rtu \<or> mb = modbus_init_tcp"
  shows "tx (snd (snd (set_single mb slave f addr v t io))) =
           tx io @ [last (tx (snd (snd (set_single mb slave f addr v t io))))] \<and>
         field16 (last (tx (snd (snd (set_single mb slave f addr v t io))))) (header_length mb + 4) =
           unat (word_of_int v :: u16)"
proof -
  let ?b = "build_query_packet mb (word_of_int slave) f (word_of_int addr) (word_of_int v)
         (replicate MAX_PACKET_SIZE (junk_byte io)) t"
  have f: "fst ?b ! (header_length mb + 4) = ucast (drop_bit 8 (word_of_int v :: u16)) \<and>
     fst ?b ! (header_length mb + 5) = ucast ((word_of_int v :: u16) AND 0x00ff) \<and>
     length (fst ?b) = MAX_PACKET_SIZE \<and> fst (snd ?b) = header_length mb + 6"
    using build_query_packet_fields [OF mb, of "replicate MAX_PACKET_SIZE (junk_byte io)"]
    by (simp add: MAX_PACKET_SIZE_def)
  have cs: "header_length mb + 6 + checksum_size mb \<le> MAX_PACKET_SIZE"
    using mb by (auto simp add: init_rtu_simps init_tcp_simps MAX_PACKET_SIZE_def)
  have "field16 (last (tx (snd (snd (modbus_send mb (fst ?b) (fst (snd ?b)) io))))) (header_length mb + 4)
      = unat (word_of_int v :: u16)"
    using f cs by (intro sent_quantity [OF mb]) simp_all
  then show ?thesis
    using modbus_send_tx [of mb "fst ?b" "fst (snd ?b)" io]
    by (simp only: set_single_tx)
qed

lemma unat_word_of_int16: "unat (word_of_int k :: u16) = nat (k mod 65536)"
  by (simp add: unat_eq_nat_uint uint_word_of_int_eq take_bit_eq_mod)

lemma read_registers_tx:
  "tx (snd (snd (snd (read_registers mb slave f addr count t io)))) =
   tx (snd (snd (modbus_send mb
      (fst (build_query_packet mb (word_of_int slave) f (word_of_int addr) (word_of_int count)
         (replicate MIN_QUERY_SIZE (junk_byte io)) t))
      (fst (snd (build_query_packet mb (word_of_int slave) f (word_of_int addr) (word_of_int count)
         (replicate MIN_QUERY_SIZE (junk_byte io)) t))) io)))"
  by (simp add: read_registers_def read_reg_response_def Let_def modbus_check_response_tx)

lemma read_registers_sent:
  assumes mb: "mb = modbus_init_rtu \<or> mb = modbus_init_tcp"
  shows "tx (snd (snd (snd (read_registers mb slave f addr count t io)))) =
           tx io @ [last (tx (snd (snd (snd (read_registers mb slave f addr count t io)))))] \<and>
         field16 (last (tx (snd (snd (snd (read_registers mb slave f addr count t io))))))
           (header_length mb + 4) = unat (word_of_int count :: u16)"
proof -
  let ?b = "build_query_packet mb (word_of_int slave) f (word_of_int addr) (word_of_int count)
         (replicate MIN_QUERY_SIZE (junk_byte io)) t"
  have f: "fst ?b ! (header_length mb + 4) = ucast (drop_bit 8 (word_of_int count :: u16)) \<and>
     fst ?b ! (header_length mb + 5) = ucast ((word_of_int count :: u16) AND 0x00ff) \<and>
     length (fst ?b) = MIN_QUERY_SIZE \<and> fst (snd ?b) = header_length mb + 6"
    using build_query_packet_fields [OF mb, of "replicate MIN_QUERY_SIZE (junk_byte io)"]
    by (simp add: MIN_QUERY_SIZE_def)
  have cs: "header_length mb + 6 + checksum_size mb \<le> MIN_QUERY_SIZE"
    using mb by (auto simp add: init_rtu_simps init_tcp_simps MIN_QUERY_SIZE_def)
  have "field16 (last (tx (snd (snd (modbus_send mb (fst ?b) (fst (snd ?b)) io))))) (header_length mb + 4)
      = unat (word_of_int count :: u16)"
    using f cs by (intro sent_quantity [OF mb]) simp_all
  then show ?thesis
    using modbus_send_tx [of mb "fst ?b" "fst (snd ?b)" io]
    by (simp only: read_registers_tx)
qed

lemma preset_registers_loop_keeps:
  "snd (preset_registers_loop d q n k) = n + 2 * k \<and>
   length (fst (preset_registers_loop d q n k)) = length q \<and>
   (\<forall>i < n. fst (preset_registers_loop d q n k) ! i = q ! i)"
proof (induction k)
  case 0
  show ?case by (simp add: preset_registers_loop_def)
next
  case (Suc k)
  then show ?case
    by (auto simp add: preset_registers_loop_def split: prod.splits)
qed

lemma force_coils_loop_keeps:
  "fst (snd (force_coils_loop d c q n k)) = n + k \<and>
   length (fst (force_coils_loop d c q n k)) = length q \<and>
   (\<forall>i < n. fst (force_coils_loop d c q n k) ! i = q ! i)"
proof (induction k)
  case 0
  show ?case by (simp add: force_coils_loop_def)
next
  case (Suc k)
  then show ?case
    by (auto simp add: force_coils_loop_def Let_def split: prod.splits)
qed

lemma bytes_for_le:
  assumes "n \<le> 1968"
  shows "bytes_for n \<le> 246"
proof (cases "0 \<le> n")
  case True
  then have "n sdiv 8 = n div 8" and "n smod 8 = n mod 8"
    by (auto simp add: signed_divide_int_def signed_modulo_int_def sgn_if)
  moreover have "n div 8 + (if n mod 8 \<noteq> 0 then 1 else 0) \<le> 246"
  proof -
    have "nat n div 8 + (if nat n mod 8 = 0 then 0 else 1) = (nat n + 7) div 8"
      by (rule ceil8)
    moreover have "(nat n + 7) div 8 \<le> 1975 div 8"
      using assms by (intro div_le_mono) simp
    ultimately have "int (nat n div 8 + (if nat n mod 8 = 0 then 0 else 1)) \<le> 246"
      by simp
    moreover have "int (nat n div 8) = n div 8" and "int (nat n mod 8) = n mod 8"
      using True by (simp_all add: zdiv_int zmod_int)
    ultimately show ?thesis
      by (simp split: if_splits)
  qed
  ultimately show ?thesis
    by (simp add: bytes_for_def)
next
  case False
  then show ?thesis
    by (auto simp add: bytes_for_def signed_divide_int_def signed_modulo_int_def sgn_if)
qed

lemma preset_multiple_registers_sent:
  assumes mb: "mb = modbus_init_rtu \<or> mb = modbus_init_tcp"
  shows "tx (snd (snd (preset_multiple_registers mb slave addr reg_count0 data_src t io))) =
           tx io @ [last (tx (snd (snd (preset_multiple_registers mb slave addr reg_count0 data_src t io))))] \<and>
         field16 (last (tx (snd (snd (preset_multiple_registers mb slave addr reg_count0 data_src t io)))))
           (header_length mb + 4) =
           unat (word_of_int (if MAX_WRITE_REGS < reg_count0 then MAX_WRITE_REGS else reg_count0) :: u16)"
proof -
  define reg_count where "reg_count = (if MAX_WRITE_REGS < reg_count0 then MAX_WRITE_REGS else reg_count0)"
  define b where "b = build_query_packet mb (word_of_int slave) FC_PRESET_MULTIPLE_REGISTERS
                (word_of_int addr) (word_of_int reg_count)
                (replicate MAX_PACKET_SIZE (junk_byte io)) t"
  define query where "query = (fst b)[fst (snd b) := word_of_int (reg_count * 2)]"
  define q where "q = preset_registers_loop data_src query (fst (snd b) + 1) (nat reg_count)"
  have tx: "tx (snd (snd (preset_multiple_registers mb slave addr reg_count0 data_src t io))) =
     tx (snd (snd (modbus_send mb (fst q) (snd q) io)))"
    by (simp add: preset_multiple_registers_def Let_def preset_response_tx
        reg_count_def b_def query_def q_def)
  have f: "fst b ! (header_length mb + 4) = ucast (drop_bit 8 (word_of_int reg_count :: u16)) \<and>
     fst b ! (header_length mb + 5) = ucast ((word_of_int reg_count :: u16) AND 0x00ff) \<and>
     length (fst b) = MAX_PACKET_SIZE \<and> fst (snd b) = header_length mb + 6"
    unfolding b_def
    using build_query_packet_fields [OF mb, of "replicate MAX_PACKET_SIZE (junk_byte io)"]
    by (simp add: MAX_PACKET_SIZE_def)
  have le: "nat reg_count \<le> 123"
    by (auto simp add: reg_count_def MAX_WRITE_REGS_def)
  have k: "snd q = header_length mb + 7 + 2 * nat reg_count \<and> length (fst q) = MAX_PACKET_SIZE \<and>
     fst q ! (header_length mb + 4) = query ! (header_length mb + 4) \<and>
     fst q ! (header_length mb + 5) = query ! (header_length mb + 5)"
    unfolding q_def
    using preset_registers_loop_keeps [of data_src query "fst (snd b) + 1" "nat reg_count"] f
    by (simp add: query_def)
  have q4: "query ! (header_length mb + 4) = fst b ! (header_length mb + 4)"
    and q5: "query ! (header_length mb + 5) = fst b ! (header_length mb + 5)"
    using f by (simp_all add: query_def)
  have cs: "snd q + checksum_size mb \<le> length (fst q)"
    using mb le k by (auto simp add: init_rtu_simps init_tcp_simps MAX_PACKET_SIZE_def)
  have "field16 (last (tx (snd (snd (modbus_send mb (fst q) (snd q) io))))) (header_length mb + 4)
      = unat (word_of_int reg_count :: u16)"
    using f k q4 q5 cs by (intro sent_quantity [OF mb]) simp_all
  then show ?thesis
    using modbus_send_tx [of mb "fst q" "snd q" io]
    by (simp only: tx reg_count_def)
qed

lemma force_multiple_coils_sent:
  assumes mb: "mb = modbus_init_rtu \<or> mb = modbus_init_tcp"
  shows "tx (snd (snd (force_multiple_coils mb slave addr coil_count0 data_src t io))) =
           tx io @ [last (tx (snd (snd (force_multiple_coils mb slave addr coil_count0 data_src t io))))] \<and>
         field16 (last (tx (snd (snd (force_multiple_coils mb slave addr coil_count0 data_src t io)))))
           (header_length mb + 4) =
           unat (word_of_int (if MAX_WRITE_COILS < coil_count0 then MAX_WRITE_COILS else coil_count0) :: u16)"
proof -
  define coil_count where "coil_count = (if MAX_WRITE_COILS < coil_count0 then MAX_WRITE_COILS else coil_count0)"
  define b where "b = build_query_packet mb (word_of_int slave) FC_FORCE_MULTIPLE_COILS
                (word_of_int addr) (word_of_int coil_count)
                (replicate MAX_PACKET_SIZE (junk_byte io)) t"
  define query where "query = (fst b)[fst (snd b) := word_of_int (bytes_for coil_count)]"
  define q where "q = force_coils_loop data_src coil_count query (fst (snd b) + 1) (nat (bytes_for coil_count))"
  have tx: "tx (snd (snd (force_multiple_coils mb slave addr coil_count0 data_src t io))) =
     tx (snd (snd (modbus_send mb (fst q) (fst (snd q)) io)))"
    by (simp add: force_multiple_coils_def Let_def preset_response_tx
        coil_count_def b_def query_def q_def)
  have f: "fst b ! (header_length mb + 4) = ucast (drop_bit 8 (word_of_int coil_count :: u16)) \<and>
     fst b ! (header_length mb + 5) = ucast ((word_of_int coil_count :: u16) AND 0x00ff) \<and>
     length (fst b) = MAX_PACKET_SIZE \<and> fst (snd b) = header_length mb + 6"
    unfolding b_def
    using build_query_packet_fields [OF mb, of "replicate MAX_PACKET_SIZE (junk_byte io)"]
    by (simp add: MAX_PACKET_SIZE_def)
  have "coil_count \<le> 1968"
    by (auto simp add: coil_count_def MAX_WRITE_COILS_def)
  then have le: "nat (bytes_for coil_count) \<le> 246"
    using bytes_for_le [of coil_count] by simp
  have k: "fst (snd q) = header_length mb + 7 + nat (bytes_for coil_count) \<and>
     length (fst q) = MAX_PACKET_SIZE \<and>
     fst q ! (header_length mb + 4) = query ! (header_length mb + 4) \<and>
     fst q ! (header_length mb + 5) = query ! (header_length mb + 5)"
    unfolding q_def
    using force_coils_loop_keeps [of data_src coil_count query "fst (snd b) + 1" "nat (bytes_for coil_count)"] f
    by (simp add: query_def)
  have q4: "query ! (header_length mb + 4) = fst b ! (header_length mb + 4)"
    and q5: "query ! (header_length mb + 5) = fst b ! (header_length mb + 5)"
    using f by (simp_all add: query_def)
  have cs: "fst (snd q) + checksum_size mb \<le> length (fst q)"
    using mb le k by (auto simp add: init_rtu_simps init_tcp_simps MAX_PACKET_SIZE_def)
  have "field16 (last (tx (snd (snd (modbus_send mb (fst q) (fst (snd q)) io))))) (header_length mb + 4)
      = unat (word_of_int coil_count :: u16)"
    using f k q4 q5 cs by (intro sent_quantity [OF mb]) simp_all
  then show ?thesis
    using modbus_send_tx [of mb "fst q" "fst (snd q)" io]
    by (simp only: tx coil_count_def)
qed

section \<open>A reply that is shorter than expected\<close>

lemma receive_loop_short:
  assumes "chunks \<noteq> []" and "[] \<notin> set chunks"
    and "length msg + length (concat chunks) < target"
    and "length msg + length (concat chunks) \<le> MAX_PACKET_SIZE"
  shows "receive_loop mb COMPLETE target (target - length msg) msg (map Data chunks) =
           (Inl COMM_TIME_OUT, msg @ concat chunks, [])"
  using assms
proof (induction chunks arbitrary: msg)
  case Nil
  then show ?case by simp
next
  case (Cons c cs)
  from Cons.prems have c: "c \<noteq> []" and lc: "length c \<le> target - length msg"
    and lt: "length (msg @ c) < target" and le: "length (msg @ c) \<le> MAX_PACKET_SIZE"
    by auto
  have rd: "read_fd (Data c # map Data cs) (target - length msg) = (int (length c), c, map Data cs)"
    using lc by (simp add: min_def)
  have nt: "next_target mb COMPLETE target (msg @ c) = (target - length (msg @ c), target, COMPLETE)"
    using lt by (simp add: next_target_def)
  show ?case
  proof (cases cs)
    case Nil
    then show ?thesis
      using c lt le rd nt
      by (subst receive_loop.simps) (simp add: Let_def)
  next
    case (Cons c' cs')
    have "receive_loop mb COMPLETE target (target - length (msg @ c)) (msg @ c) (map Data cs) =
           (Inl COMM_TIME_OUT, (msg @ c) @ concat cs, [])"
      using Cons.prems Cons by (intro Cons.IH) auto
    then show ?thesis
      using c lt le rd nt Cons
      by (subst receive_loop.simps) (simp add: Let_def)
  qed
qed

lemma receive_msg_short:
  assumes "chunks \<noteq> []" and "[] \<notin> set chunks"
    and "length (concat chunks) < target"
    and "length (concat chunks) \<le> MAX_PACKET_SIZE"
    and "rx io = map Data chunks"
  shows "receive_msg mb (Some target) msg0 size0 io =
           (Inl COMM_TIME_OUT, concat chunks @ drop (length (concat chunks)) msg0,
            int (length (concat chunks)), io\<lparr>rx := []\<rparr>)"
proof -
  from assms(1) obtain c cs where cs: "chunks = c # cs"
    by (cases chunks) auto
  have w: "wait_data (rx io) = (None, map Data chunks)"
    using assms(5) cs by simp
  have "receive_loop mb COMPLETE target (target - length ([] :: u8 list)) [] (map Data chunks) =
           (Inl COMM_TIME_OUT, [] @ concat chunks, [])"
    using assms by (intro receive_loop_short) simp_all
  then have l: "receive_loop mb COMPLETE target target [] (map Data chunks) =
           (Inl COMM_TIME_OUT, concat chunks, [])"
    by simp
  show ?thesis
    by (simp add: receive_msg_def Let_def w l)
qed

lemma crc16_prefix: "unat n = length pdu \<Longrightarrow> crc16 (pdu @ rest) n = crc16 pdu n"
  by (simp add: crc16_def)

lemma check_crc16_exception_rtu:
  "check_crc16 modbus_init_rtu (exception_frame modbus_init_rtu [] unit fc k @ junk) 5 = Inr 0"
proof -
  let ?pdu = "[unit, fc OR 0x80, k]"
  let ?c = "crc16 ?pdu 3"
  have a: "crc16 (?pdu @ ([ucast (drop_bit 8 ?c), ucast (?c AND 0x00FF)] @ junk)) 3 = ?c"
    by (rule crc16_prefix) simp
  show ?thesis
    using a crc_bytes_back [of ?c]
    by (simp add: check_crc16_def exception_frame_def init_rtu_simps Let_def)
qed

lemma exception_code_small: "k \<le> (0x0B :: u8) \<Longrightarrow> uint k < NB_TAB_ERROR_MSG"
  by (simp add: word_le_def NB_TAB_ERROR_MSG_def)

lemma check_response_exception_rtu:
  assumes fc: "query ! 1 < 0x80"
    and k: "k \<le> 0x0B"
    and long: "5 < compute_response_size modbus_init_rtu query"
    and chunks: "chunks \<noteq> []" "[] \<notin> set chunks"
      "concat chunks = exception_frame modbus_init_rtu [] unit (query ! 1) k"
    and rx: "rx io = map Data chunks"
  shows "modbus_check_response modbus_init_rtu query response0 response_size0 io =
    (Inr (- uint k), exception_frame modbus_init_rtu [] unit (query ! 1) k @ drop 5 response0,
     io\<lparr>rx := []\<rparr>)"
proof -
  let ?f = "exception_frame modbus_init_rtu [] unit (query ! 1) k"
  have len: "length ?f = 5"
    by (simp add: exception_frame_def init_rtu_simps Let_def)
  have m: "receive_msg modbus_init_rtu (Some (compute_response_size modbus_init_rtu query))
      response0 response_size0 io =
      (Inl COMM_TIME_OUT, ?f @ drop 5 response0, 5, io\<lparr>rx := []\<rparr>)"
    using receive_msg_short [OF chunks(1) chunks(2) _ _ rx,
        of "compute_response_size modbus_init_rtu query" modbus_init_rtu response0 response_size0]
      long len chunks(3)
    by (simp add: MAX_PACKET_SIZE_def)
  define resp where "resp = ?f @ drop 5 response0"
  have n1: "resp ! Suc 0 = query ! 1 OR 0x80"
    and n2: "resp ! Suc (Suc 0) = k"
    and n2': "resp ! 2 = k"
    by (simp_all add: resp_def exception_frame_def init_rtu_simps Let_def)
  have crc: "check_crc16 modbus_init_rtu resp 5 = Inr 0"
    unfolding resp_def by (rule check_crc16_exception_rtu)
  have "modbus_check_response modbus_init_rtu query response0 response_size0 io =
    (Inr (- uint k), resp, io\<lparr>rx := []\<rparr>)"
    using or_0x80 [OF fc] exception_code_small [OF k]
    by (simp add: modbus_check_response_def Let_def m [folded resp_def] init_rtu_simps
        n1 n2 n2' crc)
  then show ?thesis
    by (simp only: resp_def)
qed

lemma check_response_exception_tcp:
  assumes hdr: "length hdr = 6"
    and fc: "query ! 7 < 0x80"
    and k: "k \<le> 0x0B"
    and long: "9 < compute_response_size modbus_init_tcp query"
    and chunks: "chunks \<noteq> []" "[] \<notin> set chunks"
      "concat chunks = exception_frame modbus_init_tcp hdr unit (query ! 7) k"
    and rx: "rx io = map Data chunks"
  shows "modbus_check_response modbus_init_tcp query response0 response_size0 io =
    (Inr (- uint k), exception_frame modbus_init_tcp hdr unit (query ! 7) k @ drop 9 response0,
     io\<lparr>rx := []\<rparr>)"
proof -
  let ?f = "exception_frame modbus_init_tcp hdr unit (query ! 7) k"
  have len: "length ?f = 9"
    using hdr by (simp add: exception_frame_def init_tcp_simps Let_def)
  have m: "receive_msg modbus_init_tcp (Some (compute_response_size modbus_init_tcp query))
      response0 response_size0 io =
      (Inl COMM_TIME_OUT, ?f @ drop 9 response0, 9, io\<lparr>rx := []\<rparr>)"
    using receive_msg_short [OF chunks(1) chunks(2) _ _ rx,
        of "compute_response_size modbus_init_tcp query" modbus_init_tcp response0 response_size0]
      long len chunks(3)
    by (simp add: MAX_PACKET_SIZE_def)
  define resp where "resp = ?f @ drop 9 response0"
  have n1: "resp ! 7 = query ! 7 OR 0x80"
    and n2: "resp ! 8 = k"
    using hdr by (simp_all add: resp_def exception_frame_def init_tcp_simps Let_def nth_append)
  have crc: "check_crc16 modbus_init_tcp resp 9 = Inr 0"
    by (simp add: check_crc16_def init_tcp_simps)
  have "modbus_check_response modbus_init_tcp query response0 response_size0 io =
    (Inr (- uint k), resp, io\<lparr>rx := []\<rparr>)"
    using or_0x80 [OF fc] exception_code_small [OF k]
    by (simp add: modbus_check_response_def Let_def m [folded resp_def] init_tcp_simps
        n1 n2 crc)
  then show ?thesis
    by (simp only: resp_def)
qed

lemma modbus_send_rx: "rx (snd (snd (modbus_send mb q n io))) = rx io"
  by (simp add: modbus_send_def Let_def split: prod.split)

lemma modbus_send_positive:
  assumes "\<And>m. wr io m = int m" and "0 < n"
  shows "positive (fst (modbus_send mb q n io))"
  using assms by (simp add: modbus_send_def Let_def positive_def split: prod.split)

lemma long_response:
  assumes "fc = query ! (header_length mb + 1)"
    and "field16 query (header_length mb + 4) \<noteq> 0 \<or> (fc \<noteq> 0x01 \<and> fc \<noteq> 0x02 \<and> fc \<noteq> 0x03 \<and> fc \<noteq> 0x04)"
  shows "header_length mb + 3 + checksum_size mb < compute_response_size mb query"
proof -
  have "0 < (field16 query (header_length mb + 4) + 7) div 8"
    if "0 < field16 query (header_length mb + 4)"
  proof -
    have "8 div 8 \<le> (field16 query (header_length mb + 4) + 7) div (8 :: nat)"
      using that by (intro div_le_mono) simp
    then show ?thesis
      by simp
  qed
  then show ?thesis
    using assms
    by (auto simp add: compute_response_size_def Let_def FC_defs ceil8)
qed

lemma check_response_exception:
  assumes mb: "mb = modbus_init_rtu \<or> mb = modbus_init_tcp"
    and hdr: "length hdr = header_length mb"
    and fc: "query ! (header_length mb + 1) < 0x80"
    and k: "k \<le> 0x0B"
    and long: "field16 query (header_length mb + 4) \<noteq> 0 \<or>
      (query ! (header_length mb + 1) \<noteq> 0x01 \<and> query ! (header_length mb + 1) \<noteq> 0x02 \<and>
       query ! (header_length mb + 1) \<noteq> 0x03 \<and> query ! (header_length mb + 1) \<noteq> 0x04)"
    and chunks: "chunks \<noteq> []" "[] \<notin> set chunks"
      "concat chunks = exception_frame mb hdr unit (query ! (header_length mb + 1)) k"
    and rx: "rx io = map Data chunks"
  shows "fst (modbus_check_response mb query response0 response_size0 io) = Inr (- uint k)"
  using mb
proof
  assume m: "mb = modbus_init_rtu"
  have l: "5 < compute_response_size modbus_init_rtu query"
    using long_response [OF refl long] by (simp add: m init_rtu_simps)
  from hdr have h: "hdr = []" by (simp add: m init_rtu_simps)
  show ?thesis
    using check_response_exception_rtu [OF _ k l chunks(1) chunks(2) _ rx, of unit response0 response_size0]
      fc chunks(3)
    by (simp add: m h init_rtu_simps)
next
  assume m: "mb = modbus_init_tcp"
  have l: "9 < compute_response_size modbus_init_tcp query"
    using long_response [OF refl long] by (simp add: m init_tcp_simps)
  from hdr have h: "length hdr = 6" by (simp add: m init_tcp_simps)
  show ?thesis
    using check_response_exception_tcp [OF h _ k l chunks(1) chunks(2) _ rx, of unit response0 response_size0]
      fc chunks(3)
    by (simp add: m init_tcp_simps)
qed

lemma send_then_check:
  assumes mb: "mb = modbus_init_rtu \<or> mb = modbus_init_tcp"
    and hdr: "length hdr = header_length mb"
    and k: "k \<le> 0x0B"
    and chunks: "chunks \<noteq> []" "[] \<notin> set chunks"
      "concat chunks = exception_frame mb hdr unit fc k"
    and rx: "rx io = map Data chunks"
    and wr: "\<And>m. wr io m = int m"
    and n: "header_length mb + 2 \<le> n" "n + checksum_size mb \<le> length q"
    and fcq: "q ! (header_length mb + 1) = fc" "fc < 0x80"
    and long: "(header_length mb + 6 \<le> n \<and> field16 q (header_length mb + 4) \<noteq> 0) \<or>
      (fc \<noteq> 0x01 \<and> fc \<noteq> 0x02 \<and> fc \<noteq> 0x03 \<and> fc \<noteq> 0x04)"
  shows "positive (fst (modbus_send mb q n io)) \<and>
     fst (modbus_check_response mb (fst (snd (modbus_send mb q n io))) r0 s0
            (snd (snd (modbus_send mb q n io)))) = Inr (- uint k)"
proof -
  let ?q1 = "fst (snd (modbus_send mb q n io))"
  let ?io1 = "snd (snd (modbus_send mb q n io))"
  have p: "positive (fst (modbus_send mb q n io))"
    using wr n(1) by (intro modbus_send_positive) simp_all
  have f1: "?q1 ! (header_length mb + 1) = fc"
    using modbus_send_query [OF mb n(2), of "header_length mb + 1" io] n(1) fcq(1) by simp
  have l: "field16 ?q1 (header_length mb + 4) \<noteq> 0 \<or>
      (?q1 ! (header_length mb + 1) \<noteq> 0x01 \<and> ?q1 ! (header_length mb + 1) \<noteq> 0x02 \<and>
       ?q1 ! (header_length mb + 1) \<noteq> 0x03 \<and> ?q1 ! (header_length mb + 1) \<noteq> 0x04)"
  proof (cases "fc \<noteq> 0x01 \<and> fc \<noteq> 0x02 \<and> fc \<noteq> 0x03 \<and> fc \<noteq> 0x04")
    case True
    then show ?thesis unfolding f1 by blast
  next
    case False
    with long have n6: "header_length mb + 6 \<le> n"
      and nz: "field16 q (header_length mb + 4) \<noteq> 0"
      by auto
    have "?q1 ! (header_length mb + 4) = q ! (header_length mb + 4)"
      using modbus_send_query [OF mb n(2), of "header_length mb + 4" io] n6 by simp
    moreover have "?q1 ! (header_length mb + 5) = q ! (header_length mb + 5)"
      using modbus_send_query [OF mb n(2), of "header_length mb + 5" io] n6 by simp
    ultimately have "field16 ?q1 (header_length mb + 4) = field16 q (header_length mb + 4)"
      by (simp only: field16_at)
    with nz show ?thesis by simp
  qed
  have "fst (modbus_check_response mb ?q1 r0 s0 ?io1) = Inr (- uint k)"
    using chunks(3) fcq(2) rx unfolding f1 [symmetric] modbus_send_rx [of mb q n io, symmetric]
    by (intro check_response_exception [OF mb hdr _ k l chunks(1) chunks(2), of unit])
  with p show ?thesis by simp
qed

lemma build_query_packet_quantity:
  assumes mb: "mb = modbus_init_rtu \<or> mb = modbus_init_tcp" and len: "12 \<le> length packet"
  shows "field16 (fst (build_query_packet mb s f a c packet t)) (header_length mb + 4) = unat c"
  using build_query_packet_fields [OF mb len, of s f a c t] bytes_u16 [of c]
  by (simp only: field16_at)

lemma function_code_less: "function_code op < 0x80"
  by (cases op) (simp_all add: FC_defs)

lemma not_positive_exception: "\<not> positive (Inr (- uint (k :: u8)))"
  by (simp add: positive_def)

lemma unat_count: "0 < n \<Longrightarrow> n < 65536 \<Longrightarrow> unat (word_of_int n :: u16) \<noteq> 0"
  by (simp add: unat_word_of_int16)

lemma read_io_status_exception:
  assumes mb: "mb = modbus_init_rtu \<or> mb = modbus_init_tcp"
    and stc: "\<And>q n r0 s0. header_length mb + 2 \<le> n \<Longrightarrow> n + checksum_size mb \<le> length q \<Longrightarrow>
      q ! (header_length mb + 1) = f \<Longrightarrow>
      (header_length mb + 6 \<le> n \<and> field16 q (header_length mb + 4) \<noteq> 0) \<or>
      (f \<noteq> 0x01 \<and> f \<noteq> 0x02 \<and> f \<noteq> 0x03 \<and> f \<noteq> 0x04) \<Longrightarrow>
      positive (fst (modbus_send mb q n io)) \<and>
      fst (modbus_check_response mb (fst (snd (modbus_send mb q n io))) r0 s0
            (snd (snd (modbus_send mb q n io)))) = Inr (- uint k)"
    and n: "0 < count" "count < 65536"
  shows "fst (read_io_status mb slave f a count t io) = Inr (- uint k)"
proof -
  let ?b = "build_query_packet mb (word_of_int slave) f (word_of_int a) (word_of_int count)
                (replicate MIN_QUERY_SIZE (junk_byte io)) t"
  have fl: "fst ?b ! (header_length mb + 1) = f \<and> length (fst ?b) = MIN_QUERY_SIZE \<and>
      fst (snd ?b) = header_length mb + 6"
    using build_query_packet_fields [OF mb, of "replicate MIN_QUERY_SIZE (junk_byte io)"]
    by (simp add: MIN_QUERY_SIZE_def)
  have q: "field16 (fst ?b) (header_length mb + 4) \<noteq> 0"
    using build_query_packet_quantity [OF mb, of "replicate MIN_QUERY_SIZE (junk_byte io)"]
      unat_count [OF n]
    by (simp add: MIN_QUERY_SIZE_def)
  have cs: "header_length mb + 6 + checksum_size mb \<le> MIN_QUERY_SIZE"
    using mb by (auto simp add: init_rtu_simps init_tcp_simps MIN_QUERY_SIZE_def)
  have "positive (fst (modbus_send mb (fst ?b) (fst (snd ?b)) io)) \<and>
      fst (modbus_check_response mb (fst (snd (modbus_send mb (fst ?b) (fst (snd ?b)) io)))
            (replicate MAX_PACKET_SIZE (junk_byte io)) (junk_int io)
            (snd (snd (modbus_send mb (fst ?b) (fst (snd ?b)) io)))) = Inr (- uint k)"
    using fl q cs by (intro stc) simp_all
  then show ?thesis
    by (simp add: read_io_status_def Let_def)
qed

lemma read_registers_exception:
  assumes mb: "mb = modbus_init_rtu \<or> mb = modbus_init_tcp"
    and stc: "\<And>q n r0 s0. header_length mb + 2 \<le> n \<Longrightarrow> n + checksum_size mb \<le> length q \<Longrightarrow>
      q ! (header_length mb + 1) = f \<Longrightarrow>
      (header_length mb + 6 \<le> n \<and> field16 q (header_length mb + 4) \<noteq> 0) \<or>
      (f \<noteq> 0x01 \<and> f \<noteq> 0x02 \<and> f \<noteq> 0x03 \<and> f \<noteq> 0x04) \<Longrightarrow>
      positive (fst (modbus_send mb q n io)) \<and>
      fst (modbus_check_response mb (fst (snd (modbus_send mb q n io))) r0 s0
            (snd (snd (modbus_send mb q n io)))) = Inr (- uint k)"
    and n: "0 < count" "count < 65536"
  shows "fst (read_registers mb slave f a count t io) = Inr (- uint k)"
proof -
  let ?b = "build_query_packet mb (word_of_int slave) f (word_of_int a) (word_of_int count)
                (replicate MIN_QUERY_SIZE (junk_byte io)) t"
  let ?s = "modbus_send mb (fst ?b) (fst (snd ?b)) io"
  have fl: "fst ?b ! (header_length mb + 1) = f \<and> length (fst ?b) = MIN_QUERY_SIZE \<and>
      fst (snd ?b) = header_length mb + 6"
    using build_query_packet_fields [OF mb, of "replicate MIN_QUERY_SIZE (junk_byte io)"]
    by (simp add: MIN_QUERY_SIZE_def)
  have q: "field16 (fst ?b) (header_length mb + 4) \<noteq> 0"
    using build_query_packet_quantity [OF mb, of "replicate MIN_QUERY_SIZE (junk_byte io)"]
      unat_count [OF n]
    by (simp add: MIN_QUERY_SIZE_def)
  have cs: "header_length mb + 6 + checksum_size mb \<le> MIN_QUERY_SIZE"
    using mb by (auto simp add: init_rtu_simps init_tcp_simps MIN_QUERY_SIZE_def)
  have "positive (fst ?s) \<and>
      fst (modbus_check_response mb (fst (snd ?s))
            (replicate MAX_PACKET_SIZE (junk_byte (snd (snd ?s)))) (junk_int (snd (snd ?s)))
            (snd (snd ?s))) = Inr (- uint k)"
    using fl q cs by (intro stc) simp_all
  then show ?thesis
    by (simp add: read_registers_def read_reg_response_def Let_def)
qed

lemma set_single_exception:
  assumes mb: "mb = modbus_init_rtu \<or> mb = modbus_init_tcp"
    and stc: "\<And>q n r0 s0. header_length mb + 2 \<le> n \<Longrightarrow> n + checksum_size mb \<le> length q \<Longrightarrow>
      q ! (header_length mb + 1) = f \<Longrightarrow>
      (header_length mb + 6 \<le> n \<and> field16 q (header_length mb + 4) \<noteq> 0) \<or>
      (f \<noteq> 0x01 \<and> f \<noteq> 0x02 \<and> f \<noteq> 0x03 \<and> f \<noteq> 0x04) \<Longrightarrow>
      positive (fst (modbus_send mb q n io)) \<and>
      fst (modbus_check_response mb (fst (snd (modbus_send mb q n io))) r0 s0
            (snd (snd (modbus_send mb q n io)))) = Inr (- uint k)"
    and f: "f \<noteq> 0x01 \<and> f \<noteq> 0x02 \<and> f \<noteq> 0x03 \<and> f \<noteq> 0x04"
  shows "fst (set_single mb slave f a v t io) = Inr (- uint k)"
proof -
  let ?b = "build_query_packet mb (word_of_int slave) f (word_of_int a) (word_of_int v)
                (replicate MAX_PACKET_SIZE (junk_byte io)) t"
  let ?s = "modbus_send mb (fst ?b) (fst (snd ?b)) io"
  have fl: "fst ?b ! (header_length mb + 1) = f \<and> length (fst ?b) = MAX_PACKET_SIZE \<and>
      fst (snd ?b) = header_length mb + 6"
    using build_query_packet_fields [OF mb, of "replicate MAX_PACKET_SIZE (junk_byte io)"]
    by (simp add: MAX_PACKET_SIZE_def)
  have cs: "header_length mb + 6 + checksum_size mb \<le> MAX_PACKET_SIZE"
    using mb by (auto simp add: init_rtu_simps init_tcp_simps MAX_PACKET_SIZE_def)
  have "positive (fst ?s) \<and>
      fst (modbus_check_response mb (fst (snd ?s))
            (replicate MAX_PACKET_SIZE (junk_byte (snd (snd ?s)))) (junk_int (snd (snd ?s)))
            (snd (snd ?s))) = Inr (- uint k)"
    using fl f cs by (intro stc) simp_all
  then show ?thesis
    by (simp add: set_single_def preset_response_def Let_def)
qed

lemma report_slave_id_exception:
  assumes mb: "mb = modbus_init_rtu \<or> mb = modbus_init_tcp"
    and stc: "\<And>q n r0 s0. header_length mb + 2 \<le> n \<Longrightarrow> n + checksum_size mb \<le> length q \<Longrightarrow>
      q ! (header_length mb + 1) = FC_REPORT_SLAVE_ID \<Longrightarrow>
      (header_length mb + 6 \<le> n \<and> field16 q (header_length mb + 4) \<noteq> 0) \<or>
      (FC_REPORT_SLAVE_ID \<noteq> 0x01 \<and> FC_REPORT_SLAVE_ID \<noteq> 0x02 \<and> FC_REPORT_SLAVE_ID \<noteq> 0x03 \<and>
       FC_REPORT_SLAVE_ID \<noteq> 0x04) \<Longrightarrow>
      positive (fst (modbus_send mb q n io)) \<and>
      fst (modbus_check_response mb (fst (snd (modbus_send mb q n io))) r0 s0
            (snd (snd (modbus_send mb q n io)))) = Inr (- uint k)"
  shows "fst (report_slave_id mb slave t io) = Inr (- uint k)"
proof -
  let ?b = "build_query_packet mb (word_of_int slave) FC_REPORT_SLAVE_ID 0 0
                (replicate MIN_QUERY_SIZE (junk_byte io)) t"
  let ?s = "modbus_send mb (fst ?b) (fst (snd ?b) - 4) io"
  have fl: "fst ?b ! (header_length mb + 1) = FC_REPORT_SLAVE_ID \<and>
      length (fst ?b) = MIN_QUERY_SIZE \<and> fst (snd ?b) = header_length mb + 6"
    using build_query_packet_fields [OF mb, of "replicate MIN_QUERY_SIZE (junk_byte io)"]
    by (simp add: MIN_QUERY_SIZE_def)
  have cs: "header_length mb + 2 + checksum_size mb \<le> MIN_QUERY_SIZE"
    using mb by (auto simp add: init_rtu_simps init_tcp_simps MIN_QUERY_SIZE_def)
  have "positive (fst ?s) \<and>
      fst (modbus_check_response mb (fst (snd ?s))
            (replicate MAX_PACKET_SIZE (junk_byte io)) (junk_int io)
            (snd (snd ?s))) = Inr (- uint k)"
    using fl cs by (intro stc) (simp_all add: FC_defs)
  then show ?thesis
    by (simp add: report_slave_id_def Let_def)
qed

lemma preset_multiple_registers_exception:
  assumes mb: "mb = modbus_init_rtu \<or> mb = modbus_init_tcp"
    and stc: "\<And>q n r0 s0. header_length mb + 2 \<le> n \<Longrightarrow> n + checksum_size mb \<le> length q \<Longrightarrow>
      q ! (header_length mb + 1) = FC_PRESET_MULTIPLE_REGISTERS \<Longrightarrow>
      (header_length mb + 6 \<le> n \<and> field16 q (header_length mb + 4) \<noteq> 0) \<or>
      (FC_PRESET_MULTIPLE_REGISTERS \<noteq> 0x01 \<and> FC_PRESET_MULTIPLE_REGISTERS \<noteq> 0x02 \<and>
       FC_PRESET_MULTIPLE_REGISTERS \<noteq> 0x03 \<and> FC_PRESET_MULTIPLE_REGISTERS \<noteq> 0x04) \<Longrightarrow>
      positive (fst (modbus_send mb q n io)) \<and>
      fst (modbus_check_response mb (fst (snd (modbus_send mb q n io))) r0 s0
            (snd (snd (modbus_send mb q n io)))) = Inr (- uint k)"
  shows "fst (preset_multiple_registers mb slave addr reg_count0 data_src t io) = Inr (- uint k)"
proof -
  define reg_count where "reg_count = (if MAX_WRITE_REGS < reg_count0 then MAX_WRITE_REGS else reg_count0)"
  define b where "b = build_query_packet mb (word_of_int slave) FC_PRESET_MULTIPLE_REGISTERS
                (word_of_int addr) (word_of_int reg_count)
                (replicate MAX_PACKET_SIZE (junk_byte io)) t"
  define query where "query = (fst b)[fst (snd b) := word_of_int (reg_count * 2)]"
  define q where "q = preset_registers_loop data_src query (fst (snd b) + 1) (nat reg_count)"
  let ?s = "modbus_send mb (fst q) (snd q) io"
  have fl: "fst b ! (header_length mb + 1) = FC_PRESET_MULTIPLE_REGISTERS \<and>
     length (fst b) = MAX_PACKET_SIZE \<and> fst (snd b) = header_length mb + 6"
    unfolding b_def
    using build_query_packet_fields [OF mb, of "replicate MAX_PACKET_SIZE (junk_byte io)"]
    by (simp add: MAX_PACKET_SIZE_def)
  have le: "nat reg_count \<le> 123"
    by (auto simp add: reg_count_def MAX_WRITE_REGS_def)
  have kq: "snd q = header_length mb + 7 + 2 * nat reg_count \<and> length (fst q) = MAX_PACKET_SIZE \<and>
     fst q ! (header_length mb + 1) = query ! (header_length mb + 1)"
    unfolding q_def
    using preset_registers_loop_keeps [of data_src query "fst (snd b) + 1" "nat reg_count"] fl
    by (simp add: query_def)
  have q1: "query ! (header_length mb + 1) = fst b ! (header_length mb + 1)"
    using fl by (simp add: query_def)
  have cs: "snd q + checksum_size mb \<le> length (fst q)"
    using mb le kq by (auto simp add: init_rtu_simps init_tcp_simps MAX_PACKET_SIZE_def)
  have "positive (fst ?s) \<and>
      fst (modbus_check_response mb (fst (snd ?s))
            (replicate MAX_PACKET_SIZE (junk_byte (snd (snd ?s)))) (junk_int (snd (snd ?s)))
            (snd (snd ?s))) = Inr (- uint k)"
    using fl kq q1 cs by (intro stc) (simp_all add: FC_defs)
  then show ?thesis
    by (simp add: preset_multiple_registers_def preset_response_def Let_def
        reg_count_def b_def query_def q_def)
qed

lemma force_multiple_coils_exception:
  assumes mb: "mb = modbus_init_rtu \<or> mb = modbus_init_tcp"
    and stc: "\<And>q n r0 s0. header_length mb + 2 \<le> n \<Longrightarrow> n + checksum_size mb \<le> length q \<Longrightarrow>
      q ! (header_length mb + 1) = FC_FORCE_MULTIPLE_COILS \<Longrightarrow>
      (header_length mb + 6 \<le> n \<and> field16 q (header_length mb + 4) \<noteq> 0) \<or>
      (FC_FORCE_MULTIPLE_COILS \<noteq> 0x01 \<and> FC_FORCE_MULTIPLE_COILS \<noteq> 0x02 \<and>
       FC_FORCE_MULTIPLE_COILS \<noteq> 0x03 \<and> FC_FORCE_MULTIPLE_COILS \<noteq> 0x04) \<Longrightarrow>
      positive (fst (modbus_send mb q n io)) \<and>
      fst (modbus_check_response mb (fst (snd (modbus_send mb q n io))) r0 s0
            (snd (snd (modbus_send mb q n io)))) = Inr (- uint k)"
  shows "fst (force_multiple_coils mb slave addr coil_count0 data_src t io) = Inr (- uint k)"
proof -
  define coil_count where "coil_count = (if MAX_WRITE_COILS < coil_count0 then MAX_WRITE_COILS else coil_count0)"
  define b where "b = build_query_packet mb (word_of_int slave) FC_FORCE_MULTIPLE_COILS
                (word_of_int addr) (word_of_int coil_count)
                (replicate MAX_PACKET_SIZE (junk_byte io)) t"
  define query where "query = (fst b)[fst (snd b) := word_of_int (bytes_for coil_count)]"
  define q where "q = force_coils_loop data_src coil_count query (fst (snd b) + 1) (nat (bytes_for coil_count))"
  let ?s = "modbus_send mb (fst q) (fst (snd q)) io"
  have fl: "fst b ! (header_length mb + 1) = FC_FORCE_MULTIPLE_COILS \<and>
     length (fst b) = MAX_PACKET_SIZE \<and> fst (snd b) = header_length mb + 6"
    unfolding b_def
    using build_query_packet_fields [OF mb, of "replicate MAX_PACKET_SIZE (junk_byte io)"]
    by (simp add: MAX_PACKET_SIZE_def)
  have "coil_count \<le> 1968"
    by (auto simp add: coil_count_def MAX_WRITE_COILS_def)
  then have le: "nat (bytes_for coil_count) \<le> 246"
    using bytes_for_le [of coil_count] by simp
  have kq: "fst (snd q) = header_length mb + 7 + nat (bytes_for coil_count) \<and>
     length (fst q) = MAX_PACKET_SIZE \<and>
     fst q ! (header_length mb + 1) = query ! (header_length mb + 1)"
    unfolding q_def
    using force_coils_loop_keeps [of data_src coil_count query "fst (snd b) + 1" "nat (bytes_for coil_count)"] fl
    by (simp add: query_def)
  have q1: "query ! (header_length mb + 1) = fst b ! (header_length mb + 1)"
    using fl by (simp add: query_def)
  have cs: "fst (snd q) + checksum_size mb \<le> length (fst q)"
    using mb le kq by (auto simp add: init_rtu_simps init_tcp_simps MAX_PACKET_SIZE_def)
  have "positive (fst ?s) \<and>
      fst (modbus_check_response mb (fst (snd ?s))
            (replicate MAX_PACKET_SIZE (junk_byte (snd (snd ?s)))) (junk_int (snd (snd ?s)))
            (snd (snd ?s))) = Inr (- uint k)"
    using fl kq q1 cs by (intro stc) (simp_all add: FC_defs)
  then show ?thesis
    by (simp add: force_multiple_coils_def preset_response_def Let_def
        coil_count_def b_def query_def q_def)
qed

lemma perform_exception:
  assumes mb: "mb = modbus_init_rtu \<or> mb = modbus_init_tcp"
    and hdr: "length hdr = header_length mb"
    and k: "k \<le> 0x0B"
    and wf: "well_formed op"
    and chunks: "chunks \<noteq> []" "[] \<notin> set chunks"
      "concat chunks = exception_frame mb hdr unit (function_code op) k"
    and rx: "rx io = map Data chunks"
    and wr: "\<And>m. wr io m = int m"
  shows "perform mb slave op t_id io = Inr (- uint k)"
proof -
  note stc = send_then_check [OF mb hdr k chunks rx wr _ _ _ function_code_less]
  show ?thesis
  proof (cases op)
    case (Read_coil_status a n)
    with wf have n: "0 < n" "n < 65536" by simp_all
    have "fst (read_io_status mb slave FC_READ_COIL_STATUS a n t_id io) = Inr (- uint k)"
      using stc Read_coil_status by (intro read_io_status_exception [OF mb _ n]) simp
    then show ?thesis
      by (simp add: Read_coil_status read_coil_status_def Let_def not_positive_exception)
  next
    case (Read_input_status a n)
    with wf have n: "0 < n" "n < 65536" by simp_all
    have "fst (read_io_status mb slave FC_READ_INPUT_STATUS a n t_id io) = Inr (- uint k)"
      using stc Read_input_status by (intro read_io_status_exception [OF mb _ n]) simp
    then show ?thesis
      by (simp add: Read_input_status read_input_status_def Let_def not_positive_exception)
  next
    case (Read_holding_registers a n)
    with wf have n: "0 < (if MAX_READ_HOLD_REGS < n then MAX_READ_HOLD_REGS else n)"
      "(if MAX_READ_HOLD_REGS < n then MAX_READ_HOLD_REGS else n) < 65536"
      by (simp_all add: MAX_READ_HOLD_REGS_def)
    show ?thesis
      unfolding Read_holding_registers perform.simps read_holding_registers_def
      using stc Read_holding_registers by (intro read_registers_exception [OF mb _ n]) simp
  next
    case (Read_input_registers a n)
    with wf have n: "0 < (if MAX_READ_INPUT_REGS < n then MAX_READ_INPUT_REGS else n)"
      "(if MAX_READ_INPUT_REGS < n then MAX_READ_INPUT_REGS else n) < 65536"
      by (simp_all add: MAX_READ_INPUT_REGS_def)
    show ?thesis
      unfolding Read_input_registers perform.simps read_input_registers_def
      using stc Read_input_registers by (intro read_registers_exception [OF mb _ n]) simp
  next
    case (Force_single_coil a v)
    show ?thesis
      unfolding Force_single_coil perform.simps force_single_coil_def
      using stc Force_single_coil
      by (intro set_single_exception [OF mb]) (simp_all add: FC_defs)
  next
    case (Preset_single_register a v)
    show ?thesis
      unfolding Preset_single_register perform.simps preset_single_register_def
      using stc Preset_single_register
      by (intro set_single_exception [OF mb]) (simp_all add: FC_defs)
  next
    case (Force_multiple_coils a n d)
    show ?thesis
      unfolding Force_multiple_coils perform.simps
      using stc Force_multiple_coils
      by (intro force_multiple_coils_exception [OF mb]) simp
  next
    case (Preset_multiple_registers a n d)
    show ?thesis
      unfolding Preset_multiple_registers perform.simps
      using stc Preset_multiple_registers
      by (intro preset_multiple_registers_exception [OF mb]) simp
  next
    case Report_slave_id
    show ?thesis
      unfolding Report_slave_id perform.simps
      using stc Report_slave_id
      by (intro report_slave_id_exception [OF mb]) simp
  qed
qed

section \<open>Packing and unpacking bits\<close>

lemma bit_coil:
  "bit (push_bit s (if c then 1 else 0 :: u8)) b \<longleftrightarrow> c \<and> b = s \<and> s < 8"
  by (auto simp add: bit_push_bit_iff bit_1_iff)

lemma pack_loop:
  assumes "\<forall>i<n. tab ! (a + i) = (if T i then 1 else 0)"
    and "offset + (n + 7) div 8 \<le> length response"
  shows "\<exists>byte resp. foldl (response_io_status_step tab) (0, 0, response, offset) [a ..< a + n] =
           (n mod 8, byte, resp, offset + n div 8) \<and>
         length resp = length response \<and>
         (\<forall>b. bit byte b \<longleftrightarrow> b < n mod 8 \<and> T (8 * (n div 8) + b)) \<and>
         (\<forall>j<n div 8. \<forall>b<8. bit (resp ! (offset + j)) b \<longleftrightarrow> T (8 * j + b))"
  using assms
proof (induction n)
  case 0
  then show ?case by simp
next
  case (Suc n)
  have "(n + 7) div 8 \<le> (Suc n + 7) div 8"
    by (rule div_le_mono) simp
  with Suc.prems have "\<forall>i<n. tab ! (a + i) = (if T i then 1 else 0)"
    and "offset + (n + 7) div 8 \<le> length response"
    by simp_all
  with Suc.IH obtain byte resp where
    st: "foldl (response_io_status_step tab) (0, 0, response, offset) [a ..< a + n] =
           (n mod 8, byte, resp, offset + n div 8)"
    and len: "length resp = length response"
    and bs: "\<And>b. bit byte b \<longleftrightarrow> b < n mod 8 \<and> T (8 * (n div 8) + b)"
    and rs: "\<And>j b. j < n div 8 \<Longrightarrow> b < 8 \<Longrightarrow> bit (resp ! (offset + j)) b \<longleftrightarrow> T (8 * j + b)"
    by blast
  have tn: "tab ! (a + n) = (if T n then 1 else 0)"
    using Suc.prems by simp
  define byte1 where "byte1 = byte OR push_bit (n mod 8) (tab ! (a + n))"
  have b1: "bit byte1 b \<longleftrightarrow> (b < n mod 8 \<and> T (8 * (n div 8) + b)) \<or> (T n \<and> b = n mod 8)" for b
    unfolding byte1_def tn by (auto simp add: bit_or_iff bit_coil bs)
  have n8: "8 * (n div 8) + n mod 8 = n"
    by simp
  have fl: "foldl (response_io_status_step tab) (0, 0, response, offset) [a ..< a + Suc n] =
      response_io_status_step tab (n mod 8, byte, resp, offset + n div 8) (a + n)"
    by (simp add: st)
  show ?case
  proof (cases "n mod 8 = 7")
    case True
    then have m: "Suc n mod 8 = 0" and d: "Suc n div 8 = n div 8 + 1"
      by (simp_all add: mod_Suc div_Suc)
    have "(Suc n + 7) div 8 = n div 8 + 1"
      by simp
    then have inr: "offset + n div 8 < length resp"
      using Suc.prems(2) len by simp
    have step: "response_io_status_step tab (n mod 8, byte, resp, offset + n div 8) (a + n) =
        (0, 0, resp[offset + n div 8 := byte1], offset + n div 8 + 1)"
      using True by (simp add: response_io_status_step_def byte1_def Let_def)
    have "\<forall>j<n div 8 + 1. \<forall>b<8.
        bit (resp[offset + n div 8 := byte1] ! (offset + j)) b \<longleftrightarrow> T (8 * j + b)"
    proof (intro allI impI)
      fix j b assume j: "j < n div 8 + 1" and b: "b < (8 :: nat)"
      show "bit (resp[offset + n div 8 := byte1] ! (offset + j)) b \<longleftrightarrow> T (8 * j + b)"
      proof (cases "j = n div 8")
        case jt: True
        have "bit byte1 b \<longleftrightarrow> T (8 * (n div 8) + b)"
        proof (cases "b = 7")
          case True
          with \<open>n mod 8 = 7\<close> n8 have "8 * (n div 8) + b = n" by simp
          then show ?thesis
            using True \<open>n mod 8 = 7\<close> by (simp add: b1)
        next
          case False
          with b have "b < 7" by simp
          then show ?thesis
            using False \<open>n mod 8 = 7\<close> by (simp add: b1)
        qed
        then show ?thesis
          using inr jt by simp
      next
        case False
        with j have "j < n div 8" by simp
        then show ?thesis
          using rs [OF _ b, of j] False by simp
      qed
    qed
    then show ?thesis
      unfolding fl step m d using len by (intro exI [of _ 0] exI [of _ "resp[offset + n div 8 := byte1]"]) simp
  next
    case False
    then have m: "Suc n mod 8 = n mod 8 + 1" and d: "Suc n div 8 = n div 8"
      by (simp_all add: mod_Suc div_Suc)
    have step: "response_io_status_step tab (n mod 8, byte, resp, offset + n div 8) (a + n) =
        (n mod 8 + 1, byte1, resp, offset + n div 8)"
      using False by (simp add: response_io_status_step_def byte1_def Let_def)
    have "bit byte1 b \<longleftrightarrow> b < n mod 8 + 1 \<and> T (8 * (n div 8) + b)" for b
    proof (cases "b = n mod 8")
      case True
      with n8 have "8 * (n div 8) + b = n" by simp
      then show ?thesis
        using True by (simp add: b1)
    next
      case False
      then show ?thesis
        by (auto simp add: b1)
    qed
    then have "\<forall>b. bit byte1 b \<longleftrightarrow> b < n mod 8 + 1 \<and> T (8 * (n div 8) + b)"
      by blast
    then show ?thesis
      unfolding fl step m d using len rs
      by (intro exI [of _ byte1] exI [of _ resp]) simp
  qed
qed


lemma unpack_loop:
  assumes "a + n \<le> length dest"
  shows "\<exists>d. foldl (set_bits_step a tab_byte) (dest, 0) [a ..< a + n] = (d, n mod 8) \<and>
     length d = length dest \<and>
     (\<forall>i<n. d ! (a + i) = (if bit (tab_byte ! (i div 8)) (i mod 8) then ON else OFF)) \<and>
     (\<forall>i<a. d ! i = dest ! i) \<and> (\<forall>i\<ge>a + n. d ! i = dest ! i)"
  using assms
proof (induction n)
  case 0
  then show ?case by simp
next
  case (Suc n)
  then obtain d where st: "foldl (set_bits_step a tab_byte) (dest, 0) [a ..< a + n] = (d, n mod 8)"
    and len: "length d = length dest"
    and ds: "\<And>i. i < n \<Longrightarrow> d ! (a + i) = (if bit (tab_byte ! (i div 8)) (i mod 8) then ON else OFF)"
    and lo: "\<And>i. i < a \<Longrightarrow> d ! i = dest ! i"
    and hi: "\<And>i. a + n \<le> i \<Longrightarrow> d ! i = dest ! i"
    by auto
  define v where "v = (if bit (tab_byte ! (n div 8)) (n mod 8) then ON else OFF)"
  have step: "set_bits_step a tab_byte (d, n mod 8) (a + n) = (d[a + n := v], Suc n mod 8)"
    by (simp add: set_bits_step_def v_def and_exp_eq_0_iff_not_bit mod_Suc_eq)
  have inr: "a + n < length d"
    using Suc.prems len by simp
  have "\<forall>i<Suc n. d[a + n := v] ! (a + i) = (if bit (tab_byte ! (i div 8)) (i mod 8) then ON else OFF)"
  proof (intro allI impI)
    fix i assume "i < Suc n"
    then consider "i = n" | "i < n" by (auto simp add: less_Suc_eq)
    then show "d[a + n := v] ! (a + i) = (if bit (tab_byte ! (i div 8)) (i mod 8) then ON else OFF)"
    proof cases
      case 1
      then show ?thesis using inr by (simp add: v_def)
    next
      case 2
      then show ?thesis using ds [of i] by simp
    qed
  qed
  moreover have "\<forall>i<a. d[a + n := v] ! i = dest ! i"
    using lo by simp
  moreover have "\<forall>i\<ge>a + Suc n. d[a + n := v] ! i = dest ! i"
    using hi by simp
  ultimately show ?case
    using len by (intro exI [of _ "d[a + n := v]"]) (simp add: st step)
qed

lemma response_io_status_bits:
  assumes n: "length bits < 65536"
    and src: "unat address + length bits \<le> length tab"
      "take (length bits) (drop (unat address) tab) = map (\<lambda>b. if b then ON else OFF) bits"
    and buf: "offset + (length bits + 7) div 8 \<le> length response"
  shows "snd (response_io_status address (of_nat (length bits)) tab response offset) =
           offset + (length bits + 7) div 8 \<and>
         length (fst (response_io_status address (of_nat (length bits)) tab response offset)) =
           length response \<and>
         (\<forall>i<length bits.
            bit (fst (response_io_status address (of_nat (length bits)) tab response offset) !
                   (offset + i div 8)) (i mod 8) \<longleftrightarrow> bits ! i)"
proof -
  define N where "N = length bits"
  have un: "unat (of_nat N :: u16) = N"
    using n by (simp add: N_def unat_of_nat take_bit_nat_eq_self)
  have tabs: "\<forall>i<N. tab ! (unat address + i) = (if bits ! i then 1 else 0)"
  proof (intro allI impI)
    fix i assume i: "i < N"
    have "take N (drop (unat address) tab) ! i = map (\<lambda>b. if b then ON else OFF) bits ! i"
      using src(2) by (simp add: N_def)
    then show "tab ! (unat address + i) = (if bits ! i then 1 else 0)"
      using i src(1) by (simp add: N_def ON_def OFF_def)
  qed
  from pack_loop [OF tabs, of offset response] buf obtain byte resp where
    st: "foldl (response_io_status_step tab) (0, 0, response, offset)
           [unat address ..< unat address + N] = (N mod 8, byte, resp, offset + N div 8)"
    and len: "length resp = length response"
    and bs: "\<And>b. bit byte b \<longleftrightarrow> b < N mod 8 \<and> bits ! (8 * (N div 8) + b)"
    and rs: "\<And>j b. j < N div 8 \<Longrightarrow> b < 8 \<Longrightarrow> bit (resp ! (offset + j)) b \<longleftrightarrow> bits ! (8 * j + b)"
    unfolding N_def by blast
  have r: "response_io_status address (of_nat N) tab response offset =
      (if N mod 8 \<noteq> 0 then (resp[offset + N div 8 := byte], offset + N div 8 + 1)
       else (resp, offset + N div 8))"
    by (simp add: response_io_status_def un st)
  have full: "bit (resp ! (offset + i div 8)) (i mod 8) \<longleftrightarrow> bits ! i" if "i div 8 < N div 8" for i
    using rs [OF that, of "i mod 8"] by simp
  show ?thesis
  proof (cases "N mod 8 = 0")
    case True
    then have c: "(N + 7) div 8 = N div 8"
      by (rule ceil8_exact)
    have "i div 8 < N div 8" if "i < N" for i
      using True that by (rule div8_less_exact)
    then show ?thesis
      unfolding N_def [symmetric] r using True c len full by simp
  next
    case False
    then have c: "(N + 7) div 8 = N div 8 + 1"
      by (rule ceil8_rest)
    have inr: "offset + N div 8 < length resp"
      using buf c len by (simp add: N_def)
    have "bit (resp[offset + N div 8 := byte] ! (offset + i div 8)) (i mod 8) \<longleftrightarrow> bits ! i"
      if i: "i < N" for i
    proof (cases "i div 8 = N div 8")
      case True
      have "8 * (i div 8) + i mod 8 = i"
        by simp
      with True have e: "8 * (N div 8) + i mod 8 = i"
        by simp
      have "i mod 8 < N mod 8"
        using i True by (rule mod8_less_same)
      then show ?thesis
        using True inr e by (simp add: bs)
    next
      case ne: False
      with i have "i div 8 < N div 8"
        by (rule div8_less_other)
      then show ?thesis
        using full [of i] ne by simp
    qed
    then show ?thesis
      unfolding N_def [symmetric] r using False c len by simp
  qed
qed

section \<open>The expected size of a response\<close>

text \<open>
  C3: for every request with function code \<open>fc\<close> and 16-bit quantity \<open>qty\<close> at the
  standard offsets, \<^verbatim>\<open>compute_response_size\<close> returns the header length plus the
  checksum size plus \<open>3 + \<lceil>qty / 8\<rceil>\<close> for the function codes 0x01 and 0x02,
  \<open>3 + 2 * qty\<close> for 0x03 and 0x04, 4 for 0x07 and 6 for every other function code.
\<close>

theorem compute_response_size_table:
  "compute_response_size mb_param query =
     header_length mb_param + checksum_size mb_param +
     (let fc = query ! (header_length mb_param + 1);
          qty = 256 * unat (query ! (header_length mb_param + 4)) +
                unat (query ! (header_length mb_param + 5))
      in if fc = 0x01 \<or> fc = 0x02 then 3 + (qty + 7) div 8
         else if fc = 0x03 \<or> fc = 0x04 then 3 + 2 * qty
         else if fc = 0x07 then 4
         else 6)"
  by (simp add: compute_response_size_def Let_def FC_defs field16_eq ceil8 add.assoc
      del: One_nat_def)

theorem compute_response_size_table_witness:
  "compute_response_size modbus_init_rtu [0x11, 0x01, 0x00, 0x13, 0x00, 0x0A] = 7 \<and>
   compute_response_size modbus_init_tcp
     [0, 1, 0, 0, 0, 6, 0x11, 0x03, 0x00, 0x6B, 0x00, 0x03] = 15"
  using compute_response_size_table [of modbus_init_rtu "[0x11, 0x01, 0x00, 0x13, 0x00, 0x0A]"]
    compute_response_size_table
      [of modbus_init_tcp "[0, 1, 0, 0, 0, 6, 0x11, 0x03, 0x00, 0x6B, 0x00, 0x03]"]
  by (simp add: modbus_init_rtu_def modbus_init_tcp_def HEADER_LENGTH_RTU_def
      CHECKSUM_SIZE_RTU_def HEADER_LENGTH_TCP_def CHECKSUM_SIZE_TCP_def)

section \<open>The header of a request in progressive receive\<close>

text \<open>
  C4: in progressive receive the expected length is extended by 4 bytes for every function
  code up to 0x06, by 5 bytes for 0x0F and 0x10, and by 0 otherwise. The code tests
  \<^verbatim>\<open>function <= FC_FORCE_SINGLE_COIL\<close>, under the comment "Read and single write": for
  the single write 0x06 it extends by 0, and the server stops after the two bytes of a
  Write Single Register request.
\<close>

theorem compute_query_size_header_single_register:
  "compute_query_size_header FC_PRESET_SINGLE_REGISTER = 0 \<and>
   compute_query_size_header FC_FORCE_SINGLE_COIL = 4 \<and>
   fst (snd (snd (receive_msg modbus_init_rtu None (replicate 260 0) 0
     \<lparr>rx = [Data [0x11, 0x06, 0x00, 0x01, 0x00, 0x03, 0x9A, 0x9B]], tx = [],
      wr = int, junk_int = 0, junk_byte = 0\<rparr>))) = 2"
  by code_simp

section \<open>The transaction identifier\<close>

lemma t_id_after_calls:
  "foldl (\<lambda>t (slave, function, start_addr, count, packet).
            snd (snd (build_query_packet_tcp slave function start_addr count packet t))) t_id reqs =
   t_id + of_nat (length reqs)"
  by (induction reqs arbitrary: t_id)
    (simp_all add: build_query_packet_tcp_def Let_def next_t_id_eq split: prod.split)

lemma build_tcp_t_id:
  assumes "2 \<le> length packet"
  shows "fst (build_query_packet_tcp slave function start_addr count packet t_id) ! 0 =
           ucast (drop_bit 8 (t_id + 1)) \<and>
         fst (build_query_packet_tcp slave function start_addr count packet t_id) ! 1 =
           ucast ((t_id + 1) AND 0x00ff)"
proof -
  from assms have "packet \<noteq> []" by auto
  with assms show ?thesis
    by (auto simp add: build_query_packet_tcp_def Let_def next_t_id_eq)
qed

text \<open>
  C9: the transaction identifier that \<^verbatim>\<open>build_query_packet_tcp\<close> writes is a 16-bit
  counter. Each call stores the previous identifier plus one (modulo \<open>2 ^ 16\<close>) in the
  first two bytes of the packet, high byte first, and keeps it; the call after the one
  that stored 0xFFFF stores 0; and after 0xFFFF calls from the fresh counter 0 the counter
  is 0xFFFF, so that the next identifier is 0.
\<close>

theorem transaction_id_counter:
  assumes "2 \<le> length packet" and "length reqs = 0xFFFF"
  shows "snd (snd (build_query_packet_tcp slave function start_addr count packet t_id)) = t_id + 1 \<and>
     field16 (fst (build_query_packet_tcp slave function start_addr count packet t_id)) 0 =
       unat (t_id + 1) \<and>
     snd (snd (build_query_packet_tcp slave function start_addr count packet 0xFFFF)) = 0 \<and>
     foldl (\<lambda>t (slave, function, start_addr, count, packet).
              snd (snd (build_query_packet_tcp slave function start_addr count packet t))) 0 reqs =
       0xFFFF"
proof -
  have a: "snd (snd (build_query_packet_tcp slave function start_addr count packet t)) = t + 1" for t
    by (simp add: build_query_packet_tcp_def Let_def next_t_id_eq)
  have b: "field16 (fst (build_query_packet_tcp slave function start_addr count packet t_id)) 0 =
       unat (t_id + 1)"
    using build_tcp_t_id [OF assms(1), of slave "function" start_addr count t_id] bytes_u16 [of "t_id + 1"]
    by (simp add: field16_eq)
  have c: "foldl (\<lambda>t (slave, function, start_addr, count, packet).
              snd (snd (build_query_packet_tcp slave function start_addr count packet t))) 0 reqs =
       (0xFFFF :: u16)"
    using assms(2) by (simp only: t_id_after_calls) simp
  from a [of t_id] a [of "0xFFFF"] b c show ?thesis
    by simp
qed

theorem transaction_id_counter_witness:
  "2 \<le> length (replicate 12 (0 :: u8)) \<and>
   length (replicate 65535 (0x11 :: u8, 0x03 :: u8, 0x6B :: u16, 3 :: u16, replicate 12 (0 :: u8))) = 0xFFFF \<and>
   snd (snd (build_query_packet_tcp 0x11 0x03 0x6B 3 (replicate 12 0) 0xFFFE)) = 0xFFFF \<and>
   field16 (fst (build_query_packet_tcp 0x11 0x03 0x6B 3 (replicate 12 0) 0xFFFE)) 0 = 0xFFFF \<and>
   snd (snd (build_query_packet_tcp 0x11 0x03 0x6B 3 (replicate 12 0) 0xFFFF)) = 0 \<and>
   foldl (\<lambda>t (slave, function, start_addr, count, packet).
              snd (snd (build_query_packet_tcp slave function start_addr count packet t))) 0
     (replicate 65535 (0x11, 0x03, 0x6B, 3, replicate 12 0)) = 0xFFFF"
proof -
  have h1: "2 \<le> length (replicate 12 (0 :: u8))"
    by simp
  have h2: "length (replicate 65535 (0x11 :: u8, 0x03 :: u8, 0x6B :: u16, 3 :: u16, replicate 12 (0 :: u8))) = 0xFFFF"
    by simp
  from transaction_id_counter [OF h1 h2, of "0x11" "0x03" "0x6B" 3 "0xFFFE"] h1 h2 show ?thesis
    by simp
qed

section \<open>Write Single Coil\<close>

text \<open>
  C10: \<^verbatim>\<open>force_single_coil\<close> hands exactly one frame to the transport, and the value
  field of that frame is 0xFF00 for every non-zero \<open>state\<close> and 0x0000 for \<open>state = 0\<close>,
  in RTU and in TCP.
\<close>

theorem force_single_coil_value:
  assumes "mb_param = modbus_init_rtu \<or> mb_param = modbus_init_tcp"
  shows "tx (snd (snd (force_single_coil mb_param slave coil_addr state t_id io))) =
           tx io @ [last (tx (snd (snd (force_single_coil mb_param slave coil_addr state t_id io))))] \<and>
         field16 (last (tx (snd (snd (force_single_coil mb_param slave coil_addr state t_id io)))))
           (header_length mb_param + 4) = (if state = 0 then 0x0000 else 0xFF00)"
proof (cases "state = 0")
  case True
  then show ?thesis
    using set_single_sent [OF assms, of slave FC_FORCE_SINGLE_COIL coil_addr 0 t_id io]
    by (simp add: force_single_coil_def)
next
  case False
  have "unat (word_of_int 0xFF00 :: u16) = 0xFF00" by simp
  with False show ?thesis
    using set_single_sent [OF assms, of slave FC_FORCE_SINGLE_COIL coil_addr "0xFF00" t_id io]
    by (simp add: force_single_coil_def)
qed

theorem force_single_coil_value_witness:
  "(modbus_init_rtu = modbus_init_rtu \<or> modbus_init_rtu = modbus_init_tcp) \<and>
   field16 (last (tx (snd (snd (force_single_coil modbus_init_rtu 0x11 0xAC 5 0 idle_line)))))
     (header_length modbus_init_rtu + 4) = 0xFF00 \<and>
   tx (snd (snd (force_single_coil modbus_init_rtu 0x11 0xAC 5 0 idle_line))) =
     [[0x11, 0x05, 0x00, 0xAC, 0xFF, 0x00, 0x4E, 0x8B]]"
proof -
  have a: "modbus_init_rtu = modbus_init_rtu \<or> modbus_init_rtu = modbus_init_tcp"
    by simp
  have b: "tx (snd (snd (force_single_coil modbus_init_rtu 0x11 0xAC 5 0 idle_line))) =
     [[0x11, 0x05, 0x00, 0xAC, 0xFF, 0x00, 0x4E, 0x8B]]"
    by code_simp
  from force_single_coil_value [OF a, of "0x11" "0xAC" 5 0 idle_line] a b show ?thesis
    by simp
qed

section \<open>Clamping of the quantities\<close>

text \<open>
  C7: the master clamps a quantity above the cap to the cap, and leaves a quantity up to
  the cap as it is: \<^verbatim>\<open>read_holding_registers\<close> and \<^verbatim>\<open>read_input_registers\<close> with the
  cap 125, \<^verbatim>\<open>preset_multiple_registers\<close> with 123 and \<^verbatim>\<open>force_multiple_coils\<close> with
  1968. Each call hands exactly one frame to the transport, whose quantity field is the
  clamped count (as a 16-bit value); for the count 200, \<^verbatim>\<open>read_holding_registers\<close> sends
  one request with the quantity 125.
\<close>

theorem quantity_clamped:
  assumes "mb_param = modbus_init_rtu \<or> mb_param = modbus_init_tcp"
  shows
    "one_request mb_param io
       (snd (snd (snd (read_holding_registers mb_param slave start_addr count t_id io))))
       (if 125 < count then 125 else nat (count mod 65536)) \<and>
     one_request mb_param io
       (snd (snd (snd (read_input_registers mb_param slave start_addr count t_id io))))
       (if 125 < count then 125 else nat (count mod 65536)) \<and>
     one_request mb_param io
       (snd (snd (preset_multiple_registers mb_param slave start_addr count data_regs t_id io)))
       (if 123 < count then 123 else nat (count mod 65536)) \<and>
     one_request mb_param io
       (snd (snd (force_multiple_coils mb_param slave start_addr count data_coils t_id io)))
       (if 1968 < count then 1968 else nat (count mod 65536))"
proof -
  have a: "one_request mb_param io
       (snd (snd (snd (read_holding_registers mb_param slave start_addr count t_id io))))
       (if 125 < count then 125 else nat (count mod 65536))"
    using read_registers_sent [OF assms, of slave FC_READ_HOLDING_REGISTERS start_addr
        "if MAX_READ_HOLD_REGS < count then MAX_READ_HOLD_REGS else count" t_id io]
    by (simp add: one_request_def read_holding_registers_def unat_word_of_int16 MAX_READ_HOLD_REGS_def)
  have b: "one_request mb_param io
       (snd (snd (snd (read_input_registers mb_param slave start_addr count t_id io))))
       (if 125 < count then 125 else nat (count mod 65536))"
    using read_registers_sent [OF assms, of slave FC_READ_INPUT_REGISTERS start_addr
        "if MAX_READ_INPUT_REGS < count then MAX_READ_INPUT_REGS else count" t_id io]
    by (simp add: one_request_def read_input_registers_def unat_word_of_int16 MAX_READ_INPUT_REGS_def)
  have c: "one_request mb_param io
       (snd (snd (preset_multiple_registers mb_param slave start_addr count data_regs t_id io)))
       (if 123 < count then 123 else nat (count mod 65536))"
    using preset_multiple_registers_sent [OF assms, of slave start_addr count data_regs t_id io]
    by (simp add: one_request_def unat_word_of_int16 MAX_WRITE_REGS_def)
  have d: "one_request mb_param io
       (snd (snd (force_multiple_coils mb_param slave start_addr count data_coils t_id io)))
       (if 1968 < count then 1968 else nat (count mod 65536))"
    using force_multiple_coils_sent [OF assms, of slave start_addr count data_coils t_id io]
    by (simp add: one_request_def unat_word_of_int16 MAX_WRITE_COILS_def)
  from a b c d show ?thesis
    by blast
qed

theorem quantity_clamped_witness:
  "(modbus_init_rtu = modbus_init_rtu \<or> modbus_init_rtu = modbus_init_tcp) \<and>
   one_request modbus_init_rtu idle_line
     (snd (snd (snd (read_holding_registers modbus_init_rtu 0x11 0x6B 200 0 idle_line)))) 125 \<and>
   tx (snd (snd (snd (read_holding_registers modbus_init_rtu 0x11 0x6B 200 0 idle_line)))) =
     [[0x11, 0x03, 0x00, 0x6B, 0x00, 0x7D, 0xF6, 0xA7]] \<and>
   one_request modbus_init_rtu idle_line
     (snd (snd (preset_multiple_registers modbus_init_rtu 0x11 0x01 124 (replicate 124 0) 0 idle_line))) 123 \<and>
   one_request modbus_init_rtu idle_line
     (snd (snd (force_multiple_coils modbus_init_rtu 0x11 0x13 1968 (replicate 1968 1) 0 idle_line))) 1968"
proof -
  have a: "modbus_init_rtu = modbus_init_rtu \<or> modbus_init_rtu = modbus_init_tcp"
    by simp
  have b: "tx (snd (snd (snd (read_holding_registers modbus_init_rtu 0x11 0x6B 200 0 idle_line)))) =
     [[0x11, 0x03, 0x00, 0x6B, 0x00, 0x7D, 0xF6, 0xA7]]"
    by code_simp
  from quantity_clamped [OF a, where io = idle_line and slave = "0x11" and start_addr = "0x6B"
      and count = 200 and t_id = 0 and data_regs = "replicate 124 0" and data_coils = "replicate 1968 1"]
    quantity_clamped [OF a, where io = idle_line and slave = "0x11" and start_addr = "0x01"
      and count = 124 and t_id = 0 and data_regs = "replicate 124 0" and data_coils = "replicate 1968 1"]
    quantity_clamped [OF a, where io = idle_line and slave = "0x11" and start_addr = "0x13"
      and count = 1968 and t_id = 0 and data_regs = "replicate 124 0" and data_coils = "replicate 1968 1"]
    a b show ?thesis
    by simp
qed

section \<open>The server and the range of an address\<close>

text \<open>
  C5: a request whose address lies outside the addressed table must be answered with the
  exception 0x02, and a write rejected this way must leave the mapping unchanged.
  \<^verbatim>\<open>manage_query\<close> compares no address with a length (its comment says "FIXME address
  illegal used in mb_mapping->tab_X"). With 32 coils, Read Coils at the address 0x0113
  is answered like Read Coils at 0x0013, with the coils 19 to 28, because
  \<^verbatim>\<open>response_io_status\<close> takes the address as a \<^verbatim>\<open>uint8_t\<close>; Read Coils at 0x0040
  reads behind the table and Write Single Coil at 0x0040 writes behind it. No run sends
  the exception frame \<open>[0x11, 0x81, 0x02]\<close>.
\<close>

theorem manage_query_no_range_check:
  "served (manage_query modbus_init_rtu [0x11, 0x01, 0x01, 0x13, 0x00, 0x0A, 0x4E, 0xA4] 8
     map32 0 idle_line) =
     Inr (map32, [[0x11, 0x01, 0x02, 0xFF, 0x03, 0x79, 0xCE]]) \<and>
   served (manage_query modbus_init_rtu [0x11, 0x01, 0x00, 0x13, 0x00, 0x0A, 0x4F, 0x58] 8
     map32 0 idle_line) =
     Inr (map32, [[0x11, 0x01, 0x02, 0xFF, 0x03, 0x79, 0xCE]]) \<and>
   served (manage_query modbus_init_rtu [0x11, 0x01, 0x00, 0x40, 0x00, 0x0A, 0xBF, 0x49] 8
     map32 0 idle_line) =
     Inl Out_of_bounds \<and>
   served (manage_query modbus_init_rtu [0x11, 0x05, 0x00, 0x40, 0xFF, 0x00, 0x8F, 0x7E] 8
     map32 0 idle_line) =
     Inl Out_of_bounds"
  by code_simp

section \<open>The server and the value of Write Single Coil\<close>

text \<open>
  C6: for Write Single Coil the server sets the coil to ON for the value 0xFF00 and to OFF
  for 0x0000; for every other value the coil must stay as it is and the answer must be the
  exception 0x03. For the value 0x1234 \<^verbatim>\<open>manage_query\<close> leaves the mapping as it is, but
  it prints "FIXME Error" and answers with the copy of the request, as it does for the
  two legal values (in RTU the copy still ends with the CRC of the request, and
  \<^verbatim>\<open>modbus_send\<close> adds a second one).
\<close>

theorem manage_query_single_coil_value:
  "served (manage_query modbus_init_rtu [0x11, 0x05, 0x00, 0x04, 0x12, 0x34, 0x83, 0xEC] 8
     map32 0 idle_line) =
     Inr (map32, [[0x11, 0x05, 0x00, 0x04, 0x12, 0x34, 0x83, 0xEC, 0x00, 0x00]]) \<and>
   served (manage_query modbus_init_tcp [0, 1, 0, 0, 0, 6, 0x11, 0x05, 0x00, 0x04, 0x12, 0x34] 12
     map32 0 idle_line) =
     Inr (map32, [[0, 1, 0, 0, 0, 6, 0x11, 0x05, 0x00, 0x04, 0x12, 0x34]]) \<and>
   served (manage_query modbus_init_tcp [0, 1, 0, 0, 0, 6, 0x11, 0x05, 0x00, 0x04, 0xFF, 0x00] 12
     map32 0 idle_line) =
     Inr (map32\<lparr>tab_coil_status := (tab_coil_status map32)[4 := ON]\<rparr>,
          [[0, 1, 0, 0, 0, 6, 0x11, 0x05, 0x00, 0x04, 0xFF, 0x00]]) \<and>
   served (manage_query modbus_init_tcp [0, 1, 0, 0, 0, 6, 0x11, 0x05, 0x00, 0x14, 0x00, 0x00] 12
     map32 0 idle_line) =
     Inr (map32\<lparr>tab_coil_status := (tab_coil_status map32)[20 := OFF]\<rparr>,
          [[0, 1, 0, 0, 0, 6, 0x11, 0x05, 0x00, 0x14, 0x00, 0x00]])"
  by code_simp

section \<open>Exception responses\<close>

text \<open>
  C1: for every exception code \<open>k\<close> from 0x00 to 0x0B, when the peer answers a
  well-formed request with the exception response (the unit, the function code of the
  request with the bit 0x80, and \<open>k\<close>, behind the header of the envelope, with the CRC in
  RTU), \<^verbatim>\<open>modbus_check_response\<close> returns \<open>- k\<close>, and so does every public operation
  of the master. The request has a function code below 0x80, and a read asks for at
  least one value; the response arrives in any number of non-empty pieces, each before
  the timeout, and then the line is silent; for the operations, the request is written
  completely.
\<close>

theorem exception_capture:
  assumes mb: "mb_param = modbus_init_rtu \<or> mb_param = modbus_init_tcp"
    and k: "k \<le> 0x0B"
    and fc: "query ! (header_length mb_param + 1) < 0x80"
    and long: "field16 query (header_length mb_param + 4) \<noteq> 0 \<or>
      (query ! (header_length mb_param + 1) \<noteq> 0x01 \<and>
       query ! (header_length mb_param + 1) \<noteq> 0x02 \<and>
       query ! (header_length mb_param + 1) \<noteq> 0x03 \<and>
       query ! (header_length mb_param + 1) \<noteq> 0x04)"
    and reply: "length hdr = header_length mb_param" "chunks \<noteq> []" "[] \<notin> set chunks"
      "concat chunks =
         exception_frame mb_param hdr unit (query ! (header_length mb_param + 1)) k"
      "rx io = map Data chunks"
    and wf: "well_formed op"
    and reply': "length hdr' = header_length mb_param" "chunks' \<noteq> []" "[] \<notin> set chunks'"
      "concat chunks' = exception_frame mb_param hdr' unit' (function_code op) k"
      "rx io' = map Data chunks'"
    and wr: "\<forall>m. wr io' m = int m"
  shows "fst (modbus_check_response mb_param query response0 response_size0 io) = Inr (- uint k) \<and>
     perform mb_param slave op t_id io' = Inr (- uint k)"
proof -
  have "fst (modbus_check_response mb_param query response0 response_size0 io) = Inr (- uint k)"
    by (rule check_response_exception [OF mb reply(1) fc k long reply(2-5)])
  moreover have "perform mb_param slave op t_id io' = Inr (- uint k)"
    using wr by (intro perform_exception [OF mb reply'(1) k wf reply'(2-5)]) simp
  ultimately show ?thesis
    by simp
qed

theorem exception_capture_witness:
  "fst (modbus_check_response modbus_init_rtu [0x11, 0x01, 0x00, 0x13, 0x00, 0x0A, 0x4F, 0x58]
          (replicate 260 0) 0
          (idle_line\<lparr>rx := [Data [0x11, 0x81], Data [0x02, 0xC0, 0x54]]\<rparr>)) = Inr (- 2) \<and>
   perform modbus_init_rtu 0x11 (Read_holding_registers 0x6B 3) 0
     (idle_line\<lparr>rx := [Data [0x11, 0x83, 0x02, 0xC1, 0x34]]\<rparr>) = Inr (- 2)"
proof -
  have mb: "modbus_init_rtu = modbus_init_rtu \<or> modbus_init_rtu = modbus_init_tcp"
    by simp
  have k: "(2 :: u8) \<le> 0x0B"
    by simp
  have fc: "[0x11, 0x01, 0x00, 0x13, 0x00, 0x0A, 0x4F, 0x58 :: u8] ! (header_length modbus_init_rtu + 1) < 0x80"
    by (simp add: init_rtu_simps)
  have long: "field16 [0x11, 0x01, 0x00, 0x13, 0x00, 0x0A, 0x4F, 0x58] (header_length modbus_init_rtu + 4) \<noteq> 0 \<or>
      ([0x11, 0x01, 0x00, 0x13, 0x00, 0x0A, 0x4F, 0x58 :: u8] ! (header_length modbus_init_rtu + 1) \<noteq> 0x01 \<and>
       [0x11, 0x01, 0x00, 0x13, 0x00, 0x0A, 0x4F, 0x58 :: u8] ! (header_length modbus_init_rtu + 1) \<noteq> 0x02 \<and>
       [0x11, 0x01, 0x00, 0x13, 0x00, 0x0A, 0x4F, 0x58 :: u8] ! (header_length modbus_init_rtu + 1) \<noteq> 0x03 \<and>
       [0x11, 0x01, 0x00, 0x13, 0x00, 0x0A, 0x4F, 0x58 :: u8] ! (header_length modbus_init_rtu + 1) \<noteq> 0x04)"
    by (simp add: init_rtu_simps field16_eq)
  have r1: "length ([] :: u8 list) = header_length modbus_init_rtu"
    by (simp add: init_rtu_simps)
  have r2: "[[0x11, 0x81], [0x02, 0xC0, 0x54 :: u8]] \<noteq> []"
    and r3: "[] \<notin> set [[0x11, 0x81], [0x02, 0xC0, 0x54 :: u8]]"
    by simp_all
  have r4: "concat [[0x11, 0x81], [0x02, 0xC0, 0x54]] =
      exception_frame modbus_init_rtu [] 0x11
        ([0x11, 0x01, 0x00, 0x13, 0x00, 0x0A, 0x4F, 0x58] ! (header_length modbus_init_rtu + 1)) 2"
    by code_simp
  have r5: "rx (idle_line\<lparr>rx := [Data [0x11, 0x81], Data [0x02, 0xC0, 0x54]]\<rparr>) =
      map Data [[0x11, 0x81], [0x02, 0xC0, 0x54]]"
    by simp
  have wf: "well_formed (Read_holding_registers 0x6B 3)"
    by simp
  have s2: "[[0x11, 0x83, 0x02, 0xC1, 0x34 :: u8]] \<noteq> []"
    and s3: "[] \<notin> set [[0x11, 0x83, 0x02, 0xC1, 0x34 :: u8]]"
    by simp_all
  have s4: "concat [[0x11, 0x83, 0x02, 0xC1, 0x34]] =
      exception_frame modbus_init_rtu [] 0x11 (function_code (Read_holding_registers 0x6B 3)) 2"
    by code_simp
  have s5: "rx (idle_line\<lparr>rx := [Data [0x11, 0x83, 0x02, 0xC1, 0x34]]\<rparr>) =
      map Data [[0x11, 0x83, 0x02, 0xC1, 0x34]]"
    by simp
  have wr: "\<forall>m. wr (idle_line\<lparr>rx := [Data [0x11, 0x83, 0x02, 0xC1, 0x34]]\<rparr>) m = int m"
    by (simp add: idle_line_def)
  from exception_capture [OF mb k fc long r1 r2 r3 r4 r5 wf r1 s2 s3 s4 s5 wr,
      of "replicate 260 0" 0 "0x11" 0]
  show ?thesis
    by simp
qed

text \<open>
  The boundary of the well-formed requests: for a read of no value the expected response
  is as long as an exception response, the receive engine reports no timeout, and the
  exception is taken for a normal response of one value.
\<close>

lemma exception_to_empty_read:
  "fst (modbus_check_response modbus_init_rtu [0x11, 0x01, 0x00, 0x13, 0x00, 0x00, 0x8F, 0x5F]
          (replicate 260 0) 0
          (idle_line\<lparr>rx := [Data [0x11, 0x81, 0x02, 0xC0, 0x54]]\<rparr>)) = Inr 1"
  by code_simp

section \<open>Packing and unpacking are inverse\<close>

text \<open>
  C8: for every \<open>N\<close> from 0 to 2000 and every sequence of \<open>N\<close> booleans,
  \<^verbatim>\<open>response_io_status\<close> packs the sequence, least significant bit first, into
  \<open>\<lceil>N / 8\<rceil>\<close> bytes of the response, and \<^verbatim>\<open>set_bits_from_bytes\<close>, unpacking \<open>N\<close>
  bits from these bytes, stores the sequence again. The booleans are entries ON and OFF
  of a table, from any address; the response buffer has room for the bytes and the
  destination for the \<open>N\<close> entries.
\<close>

theorem pack_unpack_inverse:
  assumes n: "length bits \<le> 2000"
    and src: "unat address + length bits \<le> length tab_io_status"
      "take (length bits) (drop (unat address) tab_io_status) =
         map (\<lambda>b. if b then ON else OFF) bits"
    and buf: "offset + (length bits + 7) div 8 \<le> length response"
    and dst: "unat address' + length bits \<le> length dest"
  shows "snd (response_io_status address (of_nat (length bits)) tab_io_status response offset) =
           offset + (length bits + 7) div 8 \<and>
         take (length bits) (drop (unat address')
           (set_bits_from_bytes dest address' (of_nat (length bits))
              (drop offset
                 (fst (response_io_status address (of_nat (length bits)) tab_io_status
                         response offset))))) =
           map (\<lambda>b. if b then ON else OFF) bits"
proof -
  define N where "N = length bits"
  define packed where
    "packed = fst (response_io_status address (of_nat N) tab_io_status response offset)"
  have n': "length bits < 65536"
    using n by simp
  have un: "unat (of_nat N :: u16) = N"
    using n by (simp add: N_def unat_of_nat take_bit_nat_eq_self)
  note p = response_io_status_bits [OF n' src buf, folded N_def, folded packed_def]
  from p have len: "length packed = length response"
    and bits: "\<And>i. i < N \<Longrightarrow> bit (packed ! (offset + i div 8)) (i mod 8) \<longleftrightarrow> bits ! i"
    by simp_all
  have off: "offset \<le> length packed"
    using buf len by simp
  from unpack_loop [of "unat address'" N dest "drop offset packed"] dst obtain d where
    st: "foldl (set_bits_step (unat address') (drop offset packed)) (dest, 0)
           [unat address' ..< unat address' + N] = (d, N mod 8)"
    and dlen: "length d = length dest"
    and ds: "\<And>i. i < N \<Longrightarrow> d ! (unat address' + i) =
              (if bit (drop offset packed ! (i div 8)) (i mod 8) then ON else OFF)"
    unfolding N_def by blast
  have sb: "set_bits_from_bytes dest address' (of_nat N) (drop offset packed) = d"
    by (simp add: set_bits_from_bytes_def un st)
  have "take N (drop (unat address') d) = map (\<lambda>b. if b then ON else OFF) bits"
  proof (rule nth_equalityI)
    show "length (take N (drop (unat address') d)) = length (map (\<lambda>b. if b then ON else OFF) bits)"
      using dst dlen by (simp add: N_def)
  next
    fix i assume "i < length (take N (drop (unat address') d))"
    then have i: "i < N" by simp
    have "take N (drop (unat address') d) ! i = d ! (unat address' + i)"
      using i dst dlen by (simp add: N_def)
    also have "\<dots> = (if bit (drop offset packed ! (i div 8)) (i mod 8) then ON else OFF)"
      by (rule ds [OF i])
    also have "drop offset packed ! (i div 8) = packed ! (offset + i div 8)"
      using off by simp
    also have "(if bit (packed ! (offset + i div 8)) (i mod 8) then ON else OFF) =
        (if bits ! i then ON else OFF)"
      using bits [OF i] by simp
    finally show "take N (drop (unat address') d) ! i = map (\<lambda>b. if b then ON else OFF) bits ! i"
      using i by (simp add: N_def)
  qed
  with p sb show ?thesis
    unfolding N_def [symmetric] packed_def [symmetric] by simp
qed

theorem pack_unpack_inverse_witness:
  "snd (response_io_status 0x13 10 (tab_coil_status map32) (replicate 260 0) 3) = 5 \<and>
   take 10 (drop 19 (tab_coil_status map32)) =
     map (\<lambda>b. if b then ON else OFF) (replicate 10 True) \<and>
   take 10 (drop 4
     (set_bits_from_bytes (replicate 16 0) 4 10
        (drop 3 (fst (response_io_status 0x13 10 (tab_coil_status map32) (replicate 260 0) 3))))) =
     map (\<lambda>b. if b then ON else OFF) (replicate 10 True)"
proof -
  have n: "length (replicate 10 True) \<le> 2000"
    by simp
  have s1: "unat (0x13 :: u8) + length (replicate 10 True) \<le> length (tab_coil_status map32)"
    by (simp add: map32_def)
  have s2: "take (length (replicate 10 True)) (drop (unat (0x13 :: u8)) (tab_coil_status map32)) =
      map (\<lambda>b. if b then ON else OFF) (replicate 10 True)"
    by code_simp
  have b: "3 + (length (replicate 10 True) + 7) div 8 \<le> length (replicate 260 (0 :: u8))"
    by simp
  have d: "unat (4 :: u16) + length (replicate 10 True) \<le> length (replicate 16 (0 :: u8))"
    by simp
  from pack_unpack_inverse [OF n s1 s2 b d] s2 show ?thesis
    by simp
qed

end
